theory Spec2Isabelle
  imports Main
begin

section \<open>BukTrips: the booking orchestrator and its supplier token ledgers\<close>

text \<open>
  A shallow embedding of the Solidity contracts \<^verbatim>\<open>BukTrips\<close> (the factory contract),
  \<^verbatim>\<open>SupplierContract\<close> and \<^verbatim>\<open>SupplierUtilityContract\<close>.

  \<^item> \<^verbatim>\<open>uint256\<close> values are natural numbers; Solidity 0.8.9 checks every addition,
    subtraction and multiplication, so each one is written with its overflow test and
    reverts with a panic. Addresses are natural numbers, \<open>0\<close> being \<^verbatim>\<open>address(0)\<close>.
  \<^item> A Solidity \<^verbatim>\<open>mapping\<close> is total and reads as zero where nothing was stored:
    it is a total function here.
  \<^item> A call either reverts (\<open>Inl\<close> of an error; the transaction leaves no trace) or
    returns a value and the new world (\<open>Inr\<close>).
  \<^item> The currency ledger and the treasury are external collaborators. Every call made
    to them is appended to a log, and their answer (a boolean, or a revert) is taken from
    an environment that sees the calls made so far. They do not call back into the
    contracts modelled here.
  \<^item> Events are not modelled, nor is gas. The deployment of the supplier contracts
    (\<^verbatim>\<open>registerSupplier\<close> and the two deployers) is not modelled either: a world holds
    the supplier table and the deployed ledgers it was given.
\<close>

subsection \<open>Errors\<close>

datatype error =
    Require string          \<comment> \<open>\<^verbatim>\<open>require(cond, msg)\<close> failed with \<open>msg\<close>\<close>
  | AccessControl           \<comment> \<open>\<^verbatim>\<open>onlyRole\<close> refused the caller\<close>
  | Panic_overflow          \<comment> \<open>checked arithmetic: panic 0x11\<close>
  | Panic_index             \<comment> \<open>array index out of bounds: panic 0x32\<close>
  | NonTransferable string  \<comment> \<open>the custom error of the utility ledger\<close>
  | CallReverted            \<comment> \<open>an external call reverted, there is no contract at the
                                address, or an argument does not fit its type\<close>

definition bindE :: "error + 'a \<Rightarrow> ('a \<Rightarrow> error + 'b) \<Rightarrow> error + 'b" where
  "bindE m f = (case m of Inl e \<Rightarrow> Inl e | Inr x \<Rightarrow> f x)"

definition max_uint256 :: nat where
  "max_uint256 = 2 ^ 256 - 1"

definition checked_add :: "nat \<Rightarrow> nat \<Rightarrow> error + nat" where
  "checked_add a b = (if a + b \<le> max_uint256 then Inr (a + b) else Inl Panic_overflow)"

definition checked_sub :: "nat \<Rightarrow> nat \<Rightarrow> error + nat" where
  "checked_sub a b = (if b \<le> a then Inr (a - b) else Inl Panic_overflow)"

definition checked_mul :: "nat \<Rightarrow> nat \<Rightarrow> error + nat" where
  "checked_mul a b = (if a * b \<le> max_uint256 then Inr (a * b) else Inl Panic_overflow)"

text \<open>\<^verbatim>\<open>++i\<close> on the \<^verbatim>\<open>uint8\<close> counter of every loop of \<^verbatim>\<open>BukTrips\<close>.\<close>

definition incr_uint8 :: "nat \<Rightarrow> error + nat" where
  "incr_uint8 i = (if i < 255 then Inr (i + 1) else Inl Panic_overflow)"

subsection \<open>Data of the orchestrator\<close>

type_synonym address = nat

datatype BookingStatus = nil | booked | confirmed | cancelled | expired

text \<open>\<^verbatim>\<open>struct Booking\<close>; the field \<^verbatim>\<open>id\<close> is \<open>bid\<close> here.\<close>

record Booking =
  bid :: nat
  status :: BookingStatus
  tokenID :: nat
  owner :: address
  supplierId :: nat
  checkin :: nat
  checkout_time :: nat
  total :: nat
  baseRate :: nat

text \<open>\<^verbatim>\<open>struct SupplierDetails\<close>; \<^verbatim>\<open>id\<close> and \<^verbatim>\<open>status\<close> are \<open>sup_id\<close> and \<open>sup_status\<close>.\<close>

record SupplierDetails =
  sup_id :: nat
  sup_status :: bool
  supplier_contract :: address
  supplier_owner :: address
  utility_contract :: address

text \<open>What an unwritten slot of each mapping reads as.\<close>

definition zero_Booking :: Booking where
  "zero_Booking = \<lparr>bid = 0, status = nil, tokenID = 0, owner = 0, supplierId = 0,
     checkin = 0, checkout_time = 0, total = 0, baseRate = 0\<rparr>"

definition zero_SupplierDetails :: SupplierDetails where
  "zero_SupplierDetails = \<lparr>sup_id = 0, sup_status = False, supplier_contract = 0,
     supplier_owner = 0, utility_contract = 0\<rparr>"

text \<open>The storage of \<^verbatim>\<open>BukTrips\<close>; \<open>admins\<close> is the set of holders of \<^verbatim>\<open>ADMIN_ROLE\<close>.\<close>

record BukTrips =
  buk_wallet :: address
  currency :: address
  treasury :: address
  commission :: nat
  supplierIds :: nat
  bookingIds :: nat
  BookingDetails :: "nat \<Rightarrow> Booking"
  TimeLocks :: "nat \<Rightarrow> nat \<Rightarrow> nat"
  Suppliers :: "nat \<Rightarrow> SupplierDetails"
  admins :: "address set"

subsection \<open>The supplier's token ledgers\<close>

text \<open>
  \<^verbatim>\<open>SupplierContract\<close>: \<open>sc_factory\<close> is the set of holders of
  \<^verbatim>\<open>FACTORY_CONTRACT_ROLE\<close>, \<open>sc_balances\<close> the balance table of the ERC1155 base
  contract (token id, then holder), \<open>sc_approved\<close> its operator approvals.
\<close>

record SupplierContract =
  sc_utility_contract :: address
  sc_factory :: "address set"
  sc_bookingTickets :: "nat \<Rightarrow> string"
  sc_transferable :: "nat \<Rightarrow> bool"
  sc_balances :: "nat \<Rightarrow> address \<Rightarrow> nat"
  sc_approved :: "address \<Rightarrow> address \<Rightarrow> bool"

text \<open>
  \<^verbatim>\<open>SupplierUtilityContract\<close>, with its two role tables; \<open>su_balances\<close> and
  \<open>su_approved\<close> are the balance table and the operator approvals (holder, then
  operator) of the ERC1155 base contract.
\<close>

record SupplierUtilityContract =
  su_supplier_contract :: address
  su_contract_uri :: string
  su_name :: string
  su_supplier_role :: "address set"
  su_factory_role :: "address set"
  su_bookingTickets :: "nat \<Rightarrow> string"
  su_balances :: "nat \<Rightarrow> address \<Rightarrow> nat"
  su_approved :: "address \<Rightarrow> address \<Rightarrow> bool"

subsection \<open>The world\<close>

datatype ext_call =
    TransferFrom address address nat   \<comment> \<open>\<^verbatim>\<open>IERC20(currency).transferFrom(from, to, amount)\<close>\<close>
  | CancelUSDCRefund nat address       \<comment> \<open>\<^verbatim>\<open>ITreasury(treasury).cancelUSDCRefund(amount, to)\<close>\<close>

datatype ext_result = Reverted | Returned bool

type_synonym env = "ext_call list \<Rightarrow> ext_call \<Rightarrow> ext_result"

text \<open>
  \<open>this\<close> is the address of the \<^verbatim>\<open>BukTrips\<close> contract itself (the sender of the calls
  it makes), \<open>ledgers\<close> and \<open>utilities\<close> the deployed supplier contracts by address,
  \<open>calls\<close> the external calls made so far, oldest first.
\<close>

record world =
  buk :: BukTrips
  this :: address
  ledgers :: "address \<Rightarrow> SupplierContract option"
  utilities :: "address \<Rightarrow> SupplierUtilityContract option"
  calls :: "ext_call list"

definition ext :: "env \<Rightarrow> ext_call \<Rightarrow> world \<Rightarrow> error + (bool \<times> world)" where
  "ext ev c w = (case ev (calls w) c of
       Reverted \<Rightarrow> Inl CallReverted
     | Returned b \<Rightarrow> Inr (b, w\<lparr>calls := calls w @ [c]\<rparr>))"

subsection \<open>bookRoom\<close>

text \<open>
  The loop of \<^verbatim>\<open>bookRoom\<close>, \<^verbatim>\<open>for(uint8 i=0; i<_count; ++i)\<close>: the first argument is
  the number of iterations left (\<^verbatim>\<open>_count - i\<close>), the second is \<open>i\<close>. The accumulator
  is \<^verbatim>\<open>(bookings, total, commissionTotal)\<close>.
\<close>

fun bookRoom_loop :: "nat \<Rightarrow> nat \<Rightarrow> address \<Rightarrow> nat \<Rightarrow> nat list \<Rightarrow> nat list \<Rightarrow> nat \<Rightarrow> nat
    \<Rightarrow> BukTrips \<Rightarrow> nat list \<times> nat \<times> nat \<Rightarrow> error + (BukTrips \<times> nat list \<times> nat \<times> nat)" where
  "bookRoom_loop 0 i sender sid tot br cin cout s acc = Inr (s, acc)"
| "bookRoom_loop (Suc n) i sender sid tot br cin cout s (bookings, total', commissionTotal) =
     bindE (checked_add (bookingIds s) 1) (\<lambda>newId.
     if length tot \<le> i \<or> length br \<le> i then Inl Panic_index
     else
       let s1 = s\<lparr>bookingIds := newId,
                  BookingDetails := (BookingDetails s)(newId :=
                    \<lparr>bid = newId, status = booked, tokenID = 0, owner = sender,
                     supplierId = sid, checkin = cin, checkout_time = cout,
                     total = tot ! i, baseRate = br ! i\<rparr>)\<rparr>
       in
       bindE (checked_add total' (tot ! i)) (\<lambda>total1.
       bindE (checked_mul (br ! i) (commission s)) (\<lambda>prod.
       bindE (checked_add commissionTotal (prod div 100)) (\<lambda>commissionTotal1.
       bindE (incr_uint8 i) (\<lambda>i1.
         bookRoom_loop n i1 sender sid tot br cin cout s1
           (bookings[i := newId], total1, commissionTotal1))))))"

definition bookRoom :: "env \<Rightarrow> address \<Rightarrow> nat \<Rightarrow> nat \<Rightarrow> nat list \<Rightarrow> nat list \<Rightarrow> nat \<Rightarrow> nat
    \<Rightarrow> world \<Rightarrow> error + (bool \<times> world)" where
  "bookRoom ev sender sid count tot br cin cout w =
     (if \<not> sup_status (Suppliers (buk w) sid) then Inl (Require ''Supplier not registered'')
      else
        bindE (bookRoom_loop count 0 sender sid tot br cin cout (buk w) (replicate count 0, 0, 0))
          (\<lambda>(s, bookings, total', commissionTotal).
        bindE (ext ev (TransferFrom sender (buk_wallet s) commissionTotal) (w\<lparr>buk := s\<rparr>))
          (\<lambda>(collectCommission, w1).
        if collectCommission then
          bindE (ext ev (TransferFrom sender (treasury s) total') w1) (\<lambda>(collectPayment, w2).
          if collectPayment then Inr (True, w2)
          else
            bindE (ext ev (TransferFrom (buk_wallet s) sender commissionTotal) w2) (\<lambda>(_, w3).
            bindE (ext ev (TransferFrom (treasury s) sender total') w3) (\<lambda>(_, w4).
              Inr (False, w4))))
        else
          bindE (ext ev (TransferFrom (buk_wallet s) sender commissionTotal) w1) (\<lambda>(_, w2).
            Inr (False, w2)))))"

subsection \<open>The ERC1155 base contract\<close>

text \<open>
  Modelled from the spec: the balance table of the ERC1155 base contract, a library
  dependency that is not part of the repository's sources. The spec asks for the
  "standard semi-fungible balance model per holder": minting credits the holder, burning
  debits the holder and fails when the balance is too small, and neither accepts the zero
  address. The receiver hook that the library calls on a contract account is not
  modelled: holders are plain accounts.
\<close>

definition erc1155_mint :: "(nat \<Rightarrow> address \<Rightarrow> nat) \<Rightarrow> address \<Rightarrow> nat \<Rightarrow> nat
    \<Rightarrow> error + (nat \<Rightarrow> address \<Rightarrow> nat)" where
  "erc1155_mint bal to tid amount =
     (if to = 0 then Inl (Require ''ERC1155: mint to the zero address'')
      else bindE (checked_add (bal tid to) amount) (\<lambda>b. Inr (bal(tid := (bal tid)(to := b)))))"

definition erc1155_burn :: "(nat \<Rightarrow> address \<Rightarrow> nat) \<Rightarrow> address \<Rightarrow> nat \<Rightarrow> nat
    \<Rightarrow> error + (nat \<Rightarrow> address \<Rightarrow> nat)" where
  "erc1155_burn bal from tid amount =
     (if from = 0 then Inl (Require ''ERC1155: burn from the zero address'')
      else if bal tid from < amount then Inl (Require ''ERC1155: burn amount exceeds balance'')
      else Inr (bal(tid := (bal tid)(from := bal tid from - amount))))"

subsection \<open>SupplierUtilityContract\<close>

definition SupplierUtilityContract_grantSupplierRole :: "address \<Rightarrow> address
    \<Rightarrow> SupplierUtilityContract \<Rightarrow> error + SupplierUtilityContract" where
  "SupplierUtilityContract_grantSupplierRole caller sc U =
     (if caller \<notin> su_factory_role U then Inl AccessControl
      else Inr (U\<lparr>su_supplier_contract := sc,
                  su_supplier_role := insert sc (su_supplier_role U)\<rparr>))"

definition SupplierUtilityContract_setContractURI :: "address \<Rightarrow> string
    \<Rightarrow> SupplierUtilityContract \<Rightarrow> error + SupplierUtilityContract" where
  "SupplierUtilityContract_setContractURI caller u U =
     (if caller \<notin> su_supplier_role U then Inl AccessControl
      else Inr (U\<lparr>su_contract_uri := u\<rparr>))"

definition SupplierUtilityContract_updateSupplierDetails :: "address \<Rightarrow> string
    \<Rightarrow> SupplierUtilityContract \<Rightarrow> error + SupplierUtilityContract" where
  "SupplierUtilityContract_updateSupplierDetails caller n U =
     (if caller \<notin> su_supplier_role U then Inl AccessControl
      else Inr (U\<lparr>su_name := n\<rparr>))"

definition SupplierUtilityContract_setURI :: "address \<Rightarrow> nat \<Rightarrow> string
    \<Rightarrow> SupplierUtilityContract \<Rightarrow> error + SupplierUtilityContract" where
  "SupplierUtilityContract_setURI caller tid newuri U =
     (if caller \<notin> su_factory_role U then Inl AccessControl
      else Inr (U\<lparr>su_bookingTickets := (su_bookingTickets U)(tid := newuri)\<rparr>))"

definition SupplierUtilityContract_mint :: "address \<Rightarrow> address \<Rightarrow> nat \<Rightarrow> nat \<Rightarrow> string
    \<Rightarrow> SupplierUtilityContract \<Rightarrow> error + SupplierUtilityContract" where
  "SupplierUtilityContract_mint caller account tid amount newuri U =
     (if caller \<notin> su_supplier_role U then Inl AccessControl
      else bindE (erc1155_mint (su_balances U) account tid amount) (\<lambda>bal.
        Inr (U\<lparr>su_balances := bal,
               su_bookingTickets := (su_bookingTickets U)(tid := newuri)\<rparr>)))"

text \<open>
  The two internal hooks that the contract overrides, \<^verbatim>\<open>_safeTransferFrom\<close> and
  \<^verbatim>\<open>_safeBatchTransferFrom\<close>: they revert whatever their arguments.
\<close>

definition SupplierUtilityContract__safeTransferFrom :: "address \<Rightarrow> address \<Rightarrow> nat \<Rightarrow> nat
    \<Rightarrow> SupplierUtilityContract \<Rightarrow> error + SupplierUtilityContract" where
  "SupplierUtilityContract__safeTransferFrom from to tid amount U =
     Inl (NonTransferable ''Token transfer not allowed.'')"

definition SupplierUtilityContract__safeBatchTransferFrom :: "address \<Rightarrow> address \<Rightarrow> nat list
    \<Rightarrow> nat list \<Rightarrow> SupplierUtilityContract \<Rightarrow> error + SupplierUtilityContract" where
  "SupplierUtilityContract__safeBatchTransferFrom from to tids amounts U =
     Inl (NonTransferable ''Token transfer not allowed.'')"

text \<open>
  Modelled from the spec: the public entry points \<^verbatim>\<open>safeTransferFrom\<close>,
  \<^verbatim>\<open>safeBatchTransferFrom\<close> and \<^verbatim>\<open>setApprovalForAll\<close>, which the utility contract
  inherits from the ERC1155 base contract without overriding them; the base contract is a
  library dependency that is not part of the repository's sources. The spec's rule for a
  transfer is that it "requires \<open>from\<close> is caller or caller has delegated approval from
  \<open>from\<close>"; \<^verbatim>\<open>SupplierContract.safeTransferFrom\<close> and \<^verbatim>\<open>safeBatchTransferFrom\<close> carry a
  copy of that check and of its message. The entry point checks the caller first and then
  runs the hook. An account cannot approve itself.
\<close>

definition SupplierUtilityContract_setApprovalForAll :: "address \<Rightarrow> address \<Rightarrow> bool
    \<Rightarrow> SupplierUtilityContract \<Rightarrow> error + SupplierUtilityContract" where
  "SupplierUtilityContract_setApprovalForAll caller operator approved U =
     (if caller = operator then Inl (Require ''ERC1155: setting approval status for self'')
      else Inr (U\<lparr>su_approved :=
        (su_approved U)(caller := (su_approved U caller)(operator := approved))\<rparr>))"

definition SupplierUtilityContract_safeTransferFrom :: "address \<Rightarrow> address \<Rightarrow> address \<Rightarrow> nat
    \<Rightarrow> nat \<Rightarrow> SupplierUtilityContract \<Rightarrow> error + SupplierUtilityContract" where
  "SupplierUtilityContract_safeTransferFrom caller from to tid amount U =
     (if \<not> (from = caller \<or> su_approved U from caller)
      then Inl (Require ''ERC1155: caller is not token owner or approved'')
      else SupplierUtilityContract__safeTransferFrom from to tid amount U)"

definition SupplierUtilityContract_safeBatchTransferFrom :: "address \<Rightarrow> address \<Rightarrow> address
    \<Rightarrow> nat list \<Rightarrow> nat list \<Rightarrow> SupplierUtilityContract \<Rightarrow> error + SupplierUtilityContract" where
  "SupplierUtilityContract_safeBatchTransferFrom caller from to tids amounts U =
     (if \<not> (from = caller \<or> su_approved U from caller)
      then Inl (Require ''ERC1155: caller is not token owner or approved'')
      else SupplierUtilityContract__safeBatchTransferFrom from to tids amounts U)"

subsection \<open>SupplierContract\<close>

definition SupplierContract_toggleNFTStatus :: "address \<Rightarrow> nat \<Rightarrow> bool
    \<Rightarrow> SupplierContract \<Rightarrow> error + SupplierContract" where
  "SupplierContract_toggleNFTStatus caller tid st L =
     (if caller \<notin> sc_factory L then Inl AccessControl
      else Inr (L\<lparr>sc_transferable := (sc_transferable L)(tid := st)\<rparr>))"

definition SupplierContract_mint :: "address \<Rightarrow> nat \<Rightarrow> address \<Rightarrow> nat \<Rightarrow> string \<Rightarrow> bool
    \<Rightarrow> SupplierContract \<Rightarrow> error + SupplierContract" where
  "SupplierContract_mint caller tid account amount u st L =
     (if caller \<notin> sc_factory L then Inl AccessControl
      else
        let L1 = L\<lparr>sc_transferable := (sc_transferable L)(tid := st)\<rparr> in
        bindE (erc1155_mint (sc_balances L1) account tid amount) (\<lambda>bal.
          Inr (L1\<lparr>sc_balances := bal,
                  sc_bookingTickets := (sc_bookingTickets L1)(tid := u)\<rparr>)))"

text \<open>Calls from one contract to another: the target must be deployed.\<close>

definition call_toggleNFTStatus :: "address \<Rightarrow> address \<Rightarrow> nat \<Rightarrow> bool \<Rightarrow> world
    \<Rightarrow> error + world" where
  "call_toggleNFTStatus caller sc tid st w =
     (case ledgers w sc of
        None \<Rightarrow> Inl CallReverted
      | Some L \<Rightarrow> bindE (SupplierContract_toggleNFTStatus caller tid st L) (\<lambda>L1.
          Inr (w\<lparr>ledgers := (ledgers w)(sc \<mapsto> L1)\<rparr>)))"

definition call_mint :: "address \<Rightarrow> address \<Rightarrow> nat \<Rightarrow> address \<Rightarrow> nat \<Rightarrow> string \<Rightarrow> bool
    \<Rightarrow> world \<Rightarrow> error + world" where
  "call_mint caller sc tid account amount u st w =
     (case ledgers w sc of
        None \<Rightarrow> Inl CallReverted
      | Some L \<Rightarrow> bindE (SupplierContract_mint caller tid account amount u st L) (\<lambda>L1.
          Inr (w\<lparr>ledgers := (ledgers w)(sc \<mapsto> L1)\<rparr>)))"

definition call_utility_mint :: "address \<Rightarrow> address \<Rightarrow> address \<Rightarrow> nat \<Rightarrow> nat \<Rightarrow> string
    \<Rightarrow> world \<Rightarrow> error + world" where
  "call_utility_mint caller uc account tid amount newuri w =
     (case utilities w uc of
        None \<Rightarrow> Inl CallReverted
      | Some U \<Rightarrow> bindE (SupplierUtilityContract_mint caller account tid amount newuri U) (\<lambda>U1.
          Inr (w\<lparr>utilities := (utilities w)(uc \<mapsto> U1)\<rparr>)))"

text \<open>
  \<^verbatim>\<open>SupplierContract.burn\<close>, called at the address \<open>sc\<close>: it clears the URI, asks the
  utility ledger to mint when \<open>utility\<close> is set (the ledger itself is the caller
  there), then burns.
\<close>

definition call_burn :: "address \<Rightarrow> address \<Rightarrow> address \<Rightarrow> nat \<Rightarrow> nat \<Rightarrow> bool \<Rightarrow> world
    \<Rightarrow> error + world" where
  "call_burn caller sc account tid amount utility w =
     (case ledgers w sc of
        None \<Rightarrow> Inl CallReverted
      | Some L \<Rightarrow>
          if caller \<notin> sc_factory L then Inl AccessControl
          else
            let uri' = sc_bookingTickets L tid;
                L1 = L\<lparr>sc_bookingTickets := (sc_bookingTickets L)(tid := [])\<rparr>;
                w1 = w\<lparr>ledgers := (ledgers w)(sc \<mapsto> L1)\<rparr>
            in
            bindE (if utility
                   then call_utility_mint sc (sc_utility_contract L1) account tid amount uri' w1
                   else Inr w1) (\<lambda>w2.
            bindE (erc1155_burn (sc_balances L1) account tid amount) (\<lambda>bal.
              Inr (w2\<lparr>ledgers := (ledgers w2)(sc \<mapsto> L1\<lparr>sc_balances := bal\<rparr>)\<rparr>))))"

subsection \<open>The other operations of BukTrips\<close>

definition set_status :: "nat \<Rightarrow> BookingStatus \<Rightarrow> world \<Rightarrow> world" where
  "set_status k st w = w\<lparr>buk := (buk w)\<lparr>BookingDetails :=
     (BookingDetails (buk w))(k := (BookingDetails (buk w) k)\<lparr>status := st\<rparr>)\<rparr>\<rparr>"

definition set_tokenID :: "nat \<Rightarrow> nat \<Rightarrow> world \<Rightarrow> world" where
  "set_tokenID k t w = w\<lparr>buk := (buk w)\<lparr>BookingDetails :=
     (BookingDetails (buk w))(k := (BookingDetails (buk w) k)\<lparr>tokenID := t\<rparr>)\<rparr>\<rparr>"

definition setCommission :: "address \<Rightarrow> nat \<Rightarrow> world \<Rightarrow> error + world" where
  "setCommission sender c w =
     (if sender \<notin> admins (buk w) then Inl AccessControl
      else if 255 < c then Inl CallReverted
      else Inr (w\<lparr>buk := (buk w)\<lparr>commission := c\<rparr>\<rparr>))"

definition setTransferLock :: "address \<Rightarrow> nat \<Rightarrow> nat \<Rightarrow> nat \<Rightarrow> world \<Rightarrow> error + world" where
  "setTransferLock sender sid nft_id time_lock w =
     (if sender \<notin> admins (buk w) then Inl AccessControl
      else bindE (checked_mul 3600 time_lock) (\<lambda>secs.
        Inr (w\<lparr>buk := (buk w)\<lparr>TimeLocks :=
          (TimeLocks (buk w))(sid := (TimeLocks (buk w) sid)(nft_id := secs))\<rparr>\<rparr>)))"

text \<open>\<open>now\<close> is \<^verbatim>\<open>block.timestamp\<close>.\<close>

definition toggleNFTStatus :: "address \<Rightarrow> nat \<Rightarrow> nat \<Rightarrow> bool \<Rightarrow> world \<Rightarrow> error + world" where
  "toggleNFTStatus sender now k st w =
     (let b = BookingDetails (buk w) k in
      if \<not> (sender \<in> admins (buk w) \<or> sender = owner b)
      then Inl (Require ''Caller does not have access'')
      else if \<not> 0 < tokenID b then Inl (Require ''NFT does not exist'')
      else bindE (checked_sub (checkin b) (TimeLocks (buk w) (supplierId b) k)) (\<lambda>threshold.
        if \<not> now < threshold then Inl (Require ''NFT toggle not possible now'')
        else call_toggleNFTStatus (this w)
               (supplier_contract (Suppliers (buk w) (supplierId b))) k st w))"

text \<open>
  The loops over \<^verbatim>\<open>_ids\<close>, \<^verbatim>\<open>for(uint8 i=0; i<len; ++i)\<close>: the list argument is what
  is left of \<^verbatim>\<open>_ids\<close> from index \<open>i\<close> on. After each body \<^verbatim>\<open>++i\<close> runs, and panics
  when \<open>i\<close> is 255.
\<close>

fun status_check :: "BukTrips \<Rightarrow> BookingStatus \<Rightarrow> nat \<Rightarrow> nat list \<Rightarrow> error + unit" where
  "status_check s st i [] = Inr ()"
| "status_check s st i (x # xs) =
     (if status (BookingDetails s x) \<noteq> st then Inl (Require ''Check the Booking status'')
      else bindE (incr_uint8 i) (\<lambda>i1. status_check s st i1 xs))"

fun owner_check :: "BukTrips \<Rightarrow> address \<Rightarrow> nat \<Rightarrow> nat list \<Rightarrow> error + unit" where
  "owner_check s ow i [] = Inr ()"
| "owner_check s ow i (x # xs) =
     (if owner (BookingDetails s x) \<noteq> ow then Inl (Require ''Check the booking owner'')
      else bindE (incr_uint8 i) (\<lambda>i1. owner_check s ow i1 xs))"

fun bookingRefund_loop :: "nat \<Rightarrow> nat list \<Rightarrow> world \<Rightarrow> nat \<Rightarrow> error + (world \<times> nat)" where
  "bookingRefund_loop i [] w total' = Inr (w, total')"
| "bookingRefund_loop i (x # xs) w total' =
     (let w1 = set_status x cancelled w; b = BookingDetails (buk w1) x in
      bindE (checked_mul (baseRate b) (commission (buk w1))) (\<lambda>prod.
      bindE (checked_add (total b) (prod div 100)) (\<lambda>amount.
      bindE (checked_add total' amount) (\<lambda>total1.
      bindE (incr_uint8 i) (\<lambda>i1. bookingRefund_loop i1 xs w1 total1)))))"

definition bookingRefund :: "env \<Rightarrow> address \<Rightarrow> nat \<Rightarrow> nat list \<Rightarrow> address \<Rightarrow> world
    \<Rightarrow> error + world" where
  "bookingRefund ev sender sid ids ow w =
     (if sender \<notin> admins (buk w) then Inl AccessControl
      else if \<not> sup_status (Suppliers (buk w) sid) then Inl (Require ''Supplier not registered'')
      else
        bindE (status_check (buk w) booked 0 ids) (\<lambda>_.
        bindE (owner_check (buk w) ow 0 ids) (\<lambda>_.
        bindE (bookingRefund_loop 0 ids w 0) (\<lambda>(w1, total').
        bindE (ext ev (CancelUSDCRefund total' ow) w1) (\<lambda>(_, w2). Inr w2)))))"

fun confirmRoom_check :: "BukTrips \<Rightarrow> address \<Rightarrow> nat \<Rightarrow> nat list \<Rightarrow> error + unit" where
  "confirmRoom_check s sender i [] = Inr ()"
| "confirmRoom_check s sender i (x # xs) =
     (if status (BookingDetails s x) \<noteq> booked then Inl (Require ''Check the Booking status'')
      else if owner (BookingDetails s x) \<noteq> sender
      then Inl (Require ''Only booking owner has access'')
      else bindE (incr_uint8 i) (\<lambda>i1. confirmRoom_check s sender i1 xs))"

fun confirmRoom_loop :: "address \<Rightarrow> string list \<Rightarrow> bool \<Rightarrow> nat \<Rightarrow> nat list \<Rightarrow> world
    \<Rightarrow> error + world" where
  "confirmRoom_loop sc uris st i [] w = Inr w"
| "confirmRoom_loop sc uris st i (x # xs) w =
     (let w1 = set_status x confirmed w in
      if length uris \<le> i then Inl Panic_index
      else
        bindE (call_mint (this w1) sc x (owner (BookingDetails (buk w1) x)) 1 (uris ! i) st w1)
          (\<lambda>w2.
        bindE (incr_uint8 i) (\<lambda>i1. confirmRoom_loop sc uris st i1 xs (set_tokenID x x w2))))"

definition confirmRoom :: "address \<Rightarrow> nat \<Rightarrow> nat list \<Rightarrow> string list \<Rightarrow> bool \<Rightarrow> world
    \<Rightarrow> error + world" where
  "confirmRoom sender sid ids uris st w =
     (if \<not> sup_status (Suppliers (buk w) sid) then Inl (Require ''Supplier not registered'')
      else
        bindE (confirmRoom_check (buk w) sender 0 ids) (\<lambda>_.
        if length ids \<noteq> length uris then Inl (Require ''Check Ids and URIs size'')
        else if \<not> length ids < 11 then Inl (Require ''Exceeds max room booking limit'')
        else confirmRoom_loop (supplier_contract (Suppliers (buk w) sid)) uris st 0 ids w))"

fun checkout_loop :: "nat \<Rightarrow> nat \<Rightarrow> nat list \<Rightarrow> world \<Rightarrow> error + world" where
  "checkout_loop sid i [] w = Inr w"
| "checkout_loop sid i (x # xs) w =
     (let w1 = set_status x expired w in
      bindE (call_burn (this w1) (supplier_contract (Suppliers (buk w1) sid))
               (owner (BookingDetails (buk w1) x)) x 1 True w1) (\<lambda>w2.
      bindE (incr_uint8 i) (\<lambda>i1. checkout_loop sid i1 xs w2)))"

definition checkout :: "address \<Rightarrow> nat \<Rightarrow> nat list \<Rightarrow> world \<Rightarrow> error + world" where
  "checkout sender sid ids w =
     (if sender \<notin> admins (buk w) then Inl AccessControl
      else if \<not> sup_status (Suppliers (buk w) sid) then Inl (Require ''Supplier not registered'')
      else if \<not> length ids < 11 then Inl (Require ''Exceeds max room booking limit'')
      else
        bindE (status_check (buk w) confirmed 0 ids) (\<lambda>_. checkout_loop sid 0 ids w))"

definition cancelRoom :: "env \<Rightarrow> address \<Rightarrow> nat \<Rightarrow> nat \<Rightarrow> nat \<Rightarrow> nat \<Rightarrow> nat \<Rightarrow> world
    \<Rightarrow> error + world" where
  "cancelRoom ev sender sid k penalty refund charges w =
     (if sender \<notin> admins (buk w) then Inl AccessControl
      else if \<not> sup_status (Suppliers (buk w) sid) then Inl (Require ''Supplier not registered'')
      else if status (BookingDetails (buk w) k) \<noteq> confirmed
      then Inl (Require ''Supplier not registered'')
      else
        let sc = supplier_contract (Suppliers (buk w) sid);
            w1 = set_status k cancelled w;
            b = BookingDetails (buk w1) k
        in
        bindE (ext ev (CancelUSDCRefund penalty
                 (supplier_owner (Suppliers (buk w1) (supplierId b)))) w1) (\<lambda>(_, w2).
        bindE (ext ev (CancelUSDCRefund refund (owner b)) w2) (\<lambda>(_, w3).
        bindE (ext ev (CancelUSDCRefund charges (buk_wallet (buk w3))) w3) (\<lambda>(_, w4).
          call_burn (this w4) sc (owner b) k 1 False w4))))"

subsection \<open>Transactions\<close>

text \<open>
  A transaction that reverts leaves the world as it was. \<open>perform\<close> runs one call of
  the orchestrator; \<open>run\<close> runs a sequence of transactions, each with the environment it
  meets.
\<close>

datatype operation =
    BookRoom address nat nat "nat list" "nat list" nat nat
  | ConfirmRoom address nat "nat list" "string list" bool
  | Checkout address nat "nat list"
  | CancelRoom address nat nat nat nat nat
  | BookingRefund address nat "nat list" address
  | ToggleNFTStatus address nat nat bool
  | SetCommission address nat
  | SetTransferLock address nat nat nat

fun perform :: "env \<Rightarrow> operation \<Rightarrow> world \<Rightarrow> error + world" where
  "perform ev (BookRoom sender sid count tot br cin cout) w =
     bindE (bookRoom ev sender sid count tot br cin cout w) (\<lambda>(_, w1). Inr w1)"
| "perform ev (ConfirmRoom sender sid ids uris st) w = confirmRoom sender sid ids uris st w"
| "perform ev (Checkout sender sid ids) w = checkout sender sid ids w"
| "perform ev (CancelRoom sender sid k penalty refund charges) w =
     cancelRoom ev sender sid k penalty refund charges w"
| "perform ev (BookingRefund sender sid ids ow) w = bookingRefund ev sender sid ids ow w"
| "perform ev (ToggleNFTStatus sender now k st) w = toggleNFTStatus sender now k st w"
| "perform ev (SetCommission sender c) w = setCommission sender c w"
| "perform ev (SetTransferLock sender sid nft_id t) w = setTransferLock sender sid nft_id t w"

definition transact :: "env \<Rightarrow> operation \<Rightarrow> world \<Rightarrow> world" where
  "transact ev op w = (case perform ev op w of Inl e \<Rightarrow> w | Inr w1 \<Rightarrow> w1)"

fun run :: "(env \<times> operation) list \<Rightarrow> world \<Rightarrow> world" where
  "run [] w = w"
| "run ((ev, op) # rest) w = run rest (transact ev op w)"

subsection \<open>A concrete world\<close>

text \<open>
  The world after deployment and the registration of two suppliers: supplier 1 with its
  token ledger at address 101 and utility ledger at 201, supplier 2 with 102 and 202. The
  orchestrator sits at address 1001, its admin is 1000, the protocol wallet is 900 and the
  treasury 902. No booking exists yet, and the commission is the initial 5 percent.
\<close>

definition demo_ledger :: "address \<Rightarrow> SupplierContract" where
  "demo_ledger uc = \<lparr>sc_utility_contract = uc, sc_factory = {1001},
     sc_bookingTickets = (\<lambda>_. []), sc_transferable = (\<lambda>_. False),
     sc_balances = (\<lambda>_ _. 0), sc_approved = (\<lambda>_ _. False)\<rparr>"

definition demo_utility :: "address \<Rightarrow> SupplierUtilityContract" where
  "demo_utility sc = \<lparr>su_supplier_contract = sc, su_contract_uri = [], su_name = [],
     su_supplier_role = {sc}, su_factory_role = {1001},
     su_bookingTickets = (\<lambda>_. []), su_balances = (\<lambda>_ _. 0),
     su_approved = (\<lambda>_ _. False)\<rparr>"

definition demo_buk :: BukTrips where
  "demo_buk = \<lparr>buk_wallet = 900, currency = 901, treasury = 902, commission = 5,
     supplierIds = 2, bookingIds = 0,
     BookingDetails = (\<lambda>_. zero_Booking),
     TimeLocks = (\<lambda>_ _. 0),
     Suppliers = (\<lambda>_. zero_SupplierDetails)
       (1 := \<lparr>sup_id = 1, sup_status = True, supplier_contract = 101,
               supplier_owner = 501, utility_contract = 201\<rparr>,
        2 := \<lparr>sup_id = 2, sup_status = True, supplier_contract = 102,
               supplier_owner = 502, utility_contract = 202\<rparr>),
     admins = {1000}\<rparr>"

definition demo_world :: world where
  "demo_world = \<lparr>buk = demo_buk, this = 1001,
     ledgers = [101 \<mapsto> demo_ledger 201, 102 \<mapsto> demo_ledger 202],
     utilities = [201 \<mapsto> demo_utility 101, 202 \<mapsto> demo_utility 102],
     calls = []\<rparr>"

text \<open>
  Three currency ledgers: one that accepts every transfer, one that refuses every
  transfer, and one that accepts only what is paid to the protocol wallet (so that the
  commission is collected and the payment to the treasury is refused).
\<close>

definition env_accept :: env where
  "env_accept log c = Returned True"

definition env_refuse :: env where
  "env_refuse log c = Returned False"

definition env_wallet_only :: env where
  "env_wallet_only log c =
     (case c of TransferFrom f t a \<Rightarrow> Returned (t = 900) | CancelUSDCRefund a t \<Rightarrow> Returned True)"

text \<open>What a call returned, and the world it left (the world before, when it reverted).\<close>

definition returned :: "error + ('a \<times> world) \<Rightarrow> 'a option" where
  "returned r = (case r of Inl e \<Rightarrow> None | Inr (x, w) \<Rightarrow> Some x)"

definition world_after :: "world \<Rightarrow> error + ('a \<times> world) \<Rightarrow> world" where
  "world_after w r = (case r of Inl e \<Rightarrow> w | Inr (x, w1) \<Rightarrow> w1)"

text \<open>The \<^verbatim>\<open>commissionTotal\<close> that the loop of \<^verbatim>\<open>bookRoom\<close> hands to the transfers.\<close>

definition commissionTotal_of :: "error + (BukTrips \<times> nat list \<times> nat \<times> nat) \<Rightarrow> nat option" where
  "commissionTotal_of r = (case r of Inl e \<Rightarrow> None | Inr (s, bookings, t, c) \<Rightarrow> Some c)"

subsection \<open>Sequences of calls to the utility ledger\<close>

text \<open>
  Every call that an account can make to the utility ledger, the first argument being the
  caller; a call that reverts leaves the ledger as it was.
\<close>

datatype utility_op =
    GrantSupplierRole address address
  | SetContractURI address string
  | UpdateSupplierDetails address string
  | SetURI address nat string
  | Mint address address nat nat string
  | SetApprovalForAll address address bool
  | SafeTransferFrom address address address nat nat
  | SafeBatchTransferFrom address address address "nat list" "nat list"

fun utility_perform :: "utility_op \<Rightarrow> SupplierUtilityContract \<Rightarrow> error + SupplierUtilityContract" where
  "utility_perform (GrantSupplierRole caller sc) U =
     SupplierUtilityContract_grantSupplierRole caller sc U"
| "utility_perform (SetContractURI caller u) U = SupplierUtilityContract_setContractURI caller u U"
| "utility_perform (UpdateSupplierDetails caller n) U =
     SupplierUtilityContract_updateSupplierDetails caller n U"
| "utility_perform (SetURI caller tid u) U = SupplierUtilityContract_setURI caller tid u U"
| "utility_perform (Mint caller account tid amount u) U =
     SupplierUtilityContract_mint caller account tid amount u U"
| "utility_perform (SetApprovalForAll caller operator approved) U =
     SupplierUtilityContract_setApprovalForAll caller operator approved U"
| "utility_perform (SafeTransferFrom caller from to tid amount) U =
     SupplierUtilityContract_safeTransferFrom caller from to tid amount U"
| "utility_perform (SafeBatchTransferFrom caller from to tids amounts) U =
     SupplierUtilityContract_safeBatchTransferFrom caller from to tids amounts U"

definition utility_transact :: "utility_op \<Rightarrow> SupplierUtilityContract \<Rightarrow> SupplierUtilityContract" where
  "utility_transact op U = (case utility_perform op U of Inl e \<Rightarrow> U | Inr U1 \<Rightarrow> U1)"

fun utility_run :: "utility_op list \<Rightarrow> SupplierUtilityContract \<Rightarrow> SupplierUtilityContract" where
  "utility_run [] U = U"
| "utility_run (op # rest) U = utility_run rest (utility_transact op U)"

subsection \<open>Predicates on worlds\<close>

text \<open>The world that the constructor leaves: no booking has been written.\<close>

definition constructed :: "world \<Rightarrow> bool" where
  "constructed w \<longleftrightarrow> bookingIds (buk w) = 0 \<and> (\<forall>k. BookingDetails (buk w) k = zero_Booking)"

text \<open>
  What holds of the record stored under key \<open>k\<close> when the counter is \<open>n\<close>: keys
  beyond the counter and key 0 are unwritten; a token id is only ever 0 or the key itself.
\<close>

definition booking_ok :: "nat \<Rightarrow> nat \<Rightarrow> Booking \<Rightarrow> bool" where
  "booking_ok n k b \<longleftrightarrow>
     (n < k \<or> k = 0 \<longrightarrow> status b = nil) \<and>
     (status b = nil \<or> status b = booked \<longrightarrow> tokenID b = 0) \<and>
     (status b = confirmed \<or> status b = expired \<longrightarrow> tokenID b = k) \<and>
     (tokenID b = 0 \<or> tokenID b = k)"

definition token_inv :: "BukTrips \<Rightarrow> bool" where
  "token_inv s \<longleftrightarrow> (\<forall>k. booking_ok (bookingIds s) k (BookingDetails s k))"

text \<open>A booking that is confirmed with supplier 1 and then cancelled by the admin.\<close>

definition demo_cancel :: "(env \<times> operation) list" where
  "demo_cancel = [(env_accept, BookRoom 7 1 1 [100] [50] 10000 20000),
     (env_accept, ConfirmRoom 7 1 [1] [''u''] True),
     (env_accept, CancelRoom 1000 1 1 1 2 3)]"

text \<open>
  A booking with check-in at 10000 and a transfer lock of one hour; two bookings made in one
  call; eleven bookings made in one call; a booking made with supplier 1 and confirmed with
  supplier 2.
\<close>

definition demo_locked :: "(env \<times> operation) list" where
  "demo_locked = [(env_accept, BookRoom 7 1 1 [100] [50] 10000 20000),
     (env_accept, ConfirmRoom 7 1 [1] [''u''] False),
     (env_accept, SetTransferLock 1000 1 1 1)]"

definition demo_two :: "(env \<times> operation) list" where
  "demo_two = [(env_accept, BookRoom 7 1 2 [100, 100] [100, 200] 10000 20000)]"

definition demo_eleven :: "(env \<times> operation) list" where
  "demo_eleven = [(env_accept, BookRoom 7 1 11 [1, 1, 1, 1, 1, 1, 1, 1, 1, 1, 1]
     [0, 0, 0, 0, 0, 0, 0, 0, 0, 0, 0] 10000 20000)]"

definition demo_cross :: "(env \<times> operation) list" where
  "demo_cross = [(env_accept, BookRoom 7 1 1 [100] [50] 10000 20000),
     (env_accept, ConfirmRoom 7 2 [1] [''u''] True)]"

text \<open>A booking that the admin refunds before it is confirmed.\<close>

definition demo_refund :: "(env \<times> operation) list" where
  "demo_refund = [(env_accept, BookRoom 7 1 1 [100] [50] 10000 20000),
     (env_accept, BookingRefund 1000 1 [1] 7)]"

text \<open>The edges of the booking state machine, creation included.\<close>

definition edge :: "BookingStatus \<Rightarrow> BookingStatus \<Rightarrow> bool" where
  "edge a b \<longleftrightarrow> a = nil \<and> b = booked \<or> a = booked \<and> b = confirmed \<or>
     a = booked \<and> b = cancelled \<or> a = confirmed \<and> b = expired \<or>
     a = confirmed \<and> b = cancelled"

section \<open>Properties\<close>

subsection \<open>Auxiliary facts\<close>


lemma bindE_Inr_iff: "bindE m f = Inr y \<longleftrightarrow> (\<exists>x. m = Inr x \<and> f x = Inr y)"
  by (cases m) (simp_all add: bindE_def)

lemma bindE_Inr [simp]: "bindE (Inr x) f = f x"
  by (simp add: bindE_def)

lemma bindE_Inl [simp]: "bindE (Inl e) f = Inl e"
  by (simp add: bindE_def)

lemma bindE_cong: "m = m' \<Longrightarrow> bindE m f = bindE m' f"
  by simp

lemma incr_uint8_Inr: "incr_uint8 i = Inr j \<longleftrightarrow> i < 255 \<and> j = i + 1"
  by (auto simp: incr_uint8_def)

lemma checked_add_Inr: "checked_add a b = Inr c \<longleftrightarrow> a + b \<le> max_uint256 \<and> c = a + b"
  by (auto simp: checked_add_def)

lemma checked_mul_Inr: "checked_mul a b = Inr c \<longleftrightarrow> a * b \<le> max_uint256 \<and> c = a * b"
  by (auto simp: checked_mul_def)

lemma ext_Inr: "ext ev c w = Inr (b, w1) \<longleftrightarrow> ev (calls w) c = Returned b \<and> w1 = w\<lparr>calls := calls w @ [c]\<rparr>"
  by (auto simp: ext_def split: ext_result.splits)

lemma bookRoom_loop_sums:
  "bookRoom_loop n i sender sid tot br cin cout s (bk, t, c) = Inr (s1, bk1, t1, c1) \<Longrightarrow>
     t1 = t + sum_list (take n (drop i tot)) \<and>
     c1 = c + (\<Sum>b\<leftarrow>take n (drop i br). b * commission s div 100)"
proof (induction n arbitrary: i s bk t c)
  case 0
  then show ?case by simp
next
  case (Suc n)
  from Suc.prems obtain newId where
    inb: "i < length tot" "i < length br" and
    rec: "bookRoom_loop n (i + 1) sender sid tot br cin cout
       (s\<lparr>bookingIds := newId,
           BookingDetails := (BookingDetails s)(newId :=
             \<lparr>bid = newId, status = booked, tokenID = 0, owner = sender,
              supplierId = sid, checkin = cin, checkout_time = cout,
              total = tot ! i, baseRate = br ! i\<rparr>)\<rparr>)
       (bk[i := newId], t + tot ! i, c + br ! i * commission s div 100) = Inr (s1, bk1, t1, c1)"
    by (auto simp: bindE_Inr_iff incr_uint8_Inr checked_add_Inr checked_mul_Inr Let_def
        split: if_splits)
  from Suc.IH [OF rec] inb show ?case
    by (simp add: Cons_nth_drop_Suc [symmetric] add.assoc)
qed


lemma bookRoom_loop_bookings:
  "bookRoom_loop n i sender sid tot br cin cout s acc = Inr (s1, acc1) \<Longrightarrow>
     bookingIds s1 = bookingIds s + n \<and>
     (\<forall>k. k \<le> bookingIds s \<or> bookingIds s + n < k \<longrightarrow> BookingDetails s1 k = BookingDetails s k) \<and>
     (\<forall>k. bookingIds s < k \<and> k \<le> bookingIds s + n \<longrightarrow>
        bid (BookingDetails s1 k) = k \<and> status (BookingDetails s1 k) = booked \<and>
        tokenID (BookingDetails s1 k) = 0 \<and> owner (BookingDetails s1 k) = sender \<and>
        supplierId (BookingDetails s1 k) = sid \<and> checkin (BookingDetails s1 k) = cin) \<and>
     s1\<lparr>bookingIds := bookingIds s, BookingDetails := BookingDetails s\<rparr> = s"
proof (induction n arbitrary: i s acc)
  case 0
  then show ?case by auto
next
  case (Suc n)
  obtain bk t c where acc: "acc = (bk, t, c)" by (cases acc) auto
  define s' where "s' = s\<lparr>bookingIds := bookingIds s + 1,
           BookingDetails := (BookingDetails s)(bookingIds s + 1 :=
             \<lparr>bid = bookingIds s + 1, status = booked, tokenID = 0, owner = sender,
              supplierId = sid, checkin = cin, checkout_time = cout,
              total = tot ! i, baseRate = br ! i\<rparr>)\<rparr>"
  from Suc.prems acc obtain acc' where
    rec: "bookRoom_loop n (i + 1) sender sid tot br cin cout s' acc' = Inr (s1, acc1)"
    unfolding s'_def
    by (auto simp: bindE_Inr_iff incr_uint8_Inr checked_add_Inr checked_mul_Inr Let_def
        split: if_splits)
  note IH = Suc.IH [OF rec]
  have ids: "bookingIds s' = bookingIds s + 1"
    and bd: "BookingDetails s' = (BookingDetails s)(bookingIds s + 1 :=
             \<lparr>bid = bookingIds s + 1, status = booked, tokenID = 0, owner = sender,
              supplierId = sid, checkin = cin, checkout_time = cout,
              total = tot ! i, baseRate = br ! i\<rparr>)"
    and fr: "s'\<lparr>bookingIds := bookingIds s, BookingDetails := BookingDetails s\<rparr> = s"
    by (simp_all add: s'_def)
  have 1: "bookingIds s1 = bookingIds s + Suc n" using IH ids by simp
  have 2: "BookingDetails s1 k = BookingDetails s k"
    if "k \<le> bookingIds s \<or> bookingIds s + Suc n < k" for k
  proof -
    from that have "k \<le> bookingIds s' \<or> bookingIds s' + n < k" using ids by auto
    with IH have "BookingDetails s1 k = BookingDetails s' k" by blast
    also have "\<dots> = BookingDetails s k" using that by (auto simp: bd)
    finally show ?thesis .
  qed
  have 3: "bid (BookingDetails s1 k) = k \<and> status (BookingDetails s1 k) = booked \<and>
        tokenID (BookingDetails s1 k) = 0 \<and> owner (BookingDetails s1 k) = sender \<and>
        supplierId (BookingDetails s1 k) = sid \<and> checkin (BookingDetails s1 k) = cin"
    if "bookingIds s < k \<and> k \<le> bookingIds s + Suc n" for k
  proof (cases "k = bookingIds s + 1")
    case True
    then have "k \<le> bookingIds s'" using ids by simp
    with IH have "BookingDetails s1 k = BookingDetails s' k" by blast
    then show ?thesis using True by (simp add: bd)
  next
    case False
    with that have "bookingIds s' < k \<and> k \<le> bookingIds s' + n" using ids by auto
    with IH show ?thesis by blast
  qed
  have 4: "s1\<lparr>bookingIds := bookingIds s, BookingDetails := BookingDetails s\<rparr> = s"
  proof -
    from IH have "s1\<lparr>bookingIds := bookingIds s', BookingDetails := BookingDetails s'\<rparr> = s'"
      by blast
    then have "(s1\<lparr>bookingIds := bookingIds s', BookingDetails := BookingDetails s'\<rparr>)
       \<lparr>bookingIds := bookingIds s, BookingDetails := BookingDetails s\<rparr> = s"
      using fr by simp
    then show ?thesis by simp
  qed
  from 1 2 3 4 show ?case by blast
qed

lemma bookRoom_loop_numeral:
  "bookRoom_loop (numeral v) i sender sid tot br cin cout s (bookings, total', commissionTotal) =
     bindE (checked_add (bookingIds s) 1) (\<lambda>newId.
     if length tot \<le> i \<or> length br \<le> i then Inl Panic_index
     else
       let s1 = s\<lparr>bookingIds := newId,
                  BookingDetails := (BookingDetails s)(newId :=
                    \<lparr>bid = newId, status = booked, tokenID = 0, owner = sender,
                     supplierId = sid, checkin = cin, checkout_time = cout,
                     total = tot ! i, baseRate = br ! i\<rparr>)\<rparr>
       in
       bindE (checked_add total' (tot ! i)) (\<lambda>total1.
       bindE (checked_mul (br ! i) (commission s)) (\<lambda>prod.
       bindE (checked_add commissionTotal (prod div 100)) (\<lambda>commissionTotal1.
       bindE (incr_uint8 i) (\<lambda>i1.
         bookRoom_loop (pred_numeral v) i1 sender sid tot br cin cout s1
           (bookings[i := newId], total1, commissionTotal1))))))"
  by (simp add: numeral_eq_Suc)

lemmas demo_defs = demo_world_def demo_buk_def demo_ledger_def demo_utility_def
  env_accept_def env_refuse_def env_wallet_only_def

lemmas eval_defs = returned_def world_after_def ext_def checked_add_def checked_sub_def
  checked_mul_def incr_uint8_def max_uint256_def


lemma returned_Some_iff: "returned r = Some x \<longleftrightarrow> (\<exists>w. r = Inr (x, w))"
  by (auto simp: returned_def split: sum.splits)

lemma world_after_Inr [simp]: "world_after w (Inr (x, w1)) = w1"
  by (simp add: world_after_def)

lemma bookRoom_loop_wallet:
  assumes "bookRoom_loop n i sender sid tot br cin cout s acc = Inr (s1, acc1)"
  shows "buk_wallet s1 = buk_wallet s" "treasury s1 = treasury s"
proof -
  from bookRoom_loop_bookings [OF assms]
  have "s1\<lparr>bookingIds := bookingIds s, BookingDetails := BookingDetails s\<rparr> = s" by blast
  then have "buk_wallet (s1\<lparr>bookingIds := bookingIds s, BookingDetails := BookingDetails s\<rparr>)
      = buk_wallet s"
    and "treasury (s1\<lparr>bookingIds := bookingIds s, BookingDetails := BookingDetails s\<rparr>)
      = treasury s" by simp_all
  then show "buk_wallet s1 = buk_wallet s" "treasury s1 = treasury s" by simp_all
qed

lemma erc1155_mint_Inr:
  "erc1155_mint bal to tid amount = Inr b1 \<longleftrightarrow>
     to \<noteq> 0 \<and> bal tid to + amount \<le> max_uint256 \<and>
     b1 = bal(tid := (bal tid)(to := bal tid to + amount))"
  by (auto simp: erc1155_mint_def checked_add_Inr bindE_Inr_iff)

lemma erc1155_burn_Inr:
  "erc1155_burn bal from tid amount = Inr b1 \<longleftrightarrow>
     from \<noteq> 0 \<and> amount \<le> bal tid from \<and>
     b1 = bal(tid := (bal tid)(from := bal tid from - amount))"
  by (auto simp: erc1155_burn_def)

lemma call_mint_Inr:
  "call_mint caller sc tid account amount u st w = Inr w1 \<longleftrightarrow>
     (\<exists>L. ledgers w sc = Some L \<and> caller \<in> sc_factory L \<and> account \<noteq> 0 \<and>
        sc_balances L tid account + amount \<le> max_uint256 \<and>
        w1 = w\<lparr>ledgers := (ledgers w)(sc \<mapsto>
               L\<lparr>sc_transferable := (sc_transferable L)(tid := st),
                  sc_balances := (sc_balances L)(tid :=
                     (sc_balances L tid)(account := sc_balances L tid account + amount)),
                  sc_bookingTickets := (sc_bookingTickets L)(tid := u)\<rparr>)\<rparr>)"
  by (auto simp: call_mint_def SupplierContract_mint_def bindE_Inr_iff erc1155_mint_Inr Let_def
      split: option.splits)

lemma call_mint_frame:
  assumes "call_mint caller sc tid account amount u st w = Inr w1"
  shows "buk w1 = buk w" "this w1 = this w" "calls w1 = calls w" "utilities w1 = utilities w"
  using assms by (auto simp: call_mint_Inr)

lemma call_utility_mint_frame:
  assumes "call_utility_mint caller uc account tid amount newuri w = Inr w1"
  shows "buk w1 = buk w" "this w1 = this w" "calls w1 = calls w" "ledgers w1 = ledgers w"
  using assms
  by (auto simp: call_utility_mint_def bindE_Inr_iff split: option.splits)

lemma call_burn_frame:
  assumes "call_burn caller sc account tid amount utility w = Inr w1"
  shows "buk w1 = buk w" "this w1 = this w" "calls w1 = calls w"
  using assms
  by (auto simp: call_burn_def bindE_Inr_iff Let_def
      dest: call_utility_mint_frame split: option.splits if_splits)

lemma set_status_simps [simp]:
  "this (set_status k s w) = this w" "calls (set_status k s w) = calls w"
  "ledgers (set_status k s w) = ledgers w" "utilities (set_status k s w) = utilities w"
  "buk (set_status k s w) = (buk w)\<lparr>BookingDetails :=
     (BookingDetails (buk w))(k := (BookingDetails (buk w) k)\<lparr>status := s\<rparr>)\<rparr>"
  by (simp_all add: set_status_def)

lemma set_tokenID_simps [simp]:
  "this (set_tokenID k t w) = this w" "calls (set_tokenID k t w) = calls w"
  "ledgers (set_tokenID k t w) = ledgers w" "utilities (set_tokenID k t w) = utilities w"
  "buk (set_tokenID k t w) = (buk w)\<lparr>BookingDetails :=
     (BookingDetails (buk w))(k := (BookingDetails (buk w) k)\<lparr>tokenID := t\<rparr>)\<rparr>"
  by (simp_all add: set_tokenID_def)

lemma confirmRoom_loop_buk:
  "confirmRoom_loop sc uris st i xs w = Inr w1 \<Longrightarrow>
     buk w1 = (buk w)\<lparr>BookingDetails := (\<lambda>k. if k \<in> set xs
        then (BookingDetails (buk w) k)\<lparr>status := confirmed, tokenID := k\<rparr>
        else BookingDetails (buk w) k)\<rparr> \<and>
     this w1 = this w \<and> calls w1 = calls w \<and> utilities w1 = utilities w"
proof (induction xs arbitrary: i w)
  case Nil
  then show ?case by simp
next
  case (Cons x xs)
  from Cons.prems obtain w2 where
    mint: "call_mint (this w) sc x (owner (BookingDetails (buk w) x)) 1 (uris ! i) st
             (set_status x confirmed w) = Inr w2"
    and rec: "confirmRoom_loop sc uris st (i + 1) xs (set_tokenID x x w2) = Inr w1"
    by (auto simp: bindE_Inr_iff incr_uint8_Inr Let_def split: if_splits)
  note fr = call_mint_frame [OF mint]
  from Cons.IH [OF rec] fr show ?case
    by (auto simp: fun_eq_iff intro!: arg_cong2 [where f = "\<lambda>f s. s\<lparr>BookingDetails := f\<rparr>"])
qed


lemma checkout_loop_buk:
  "checkout_loop sid i xs w = Inr w1 \<Longrightarrow>
     buk w1 = (buk w)\<lparr>BookingDetails := (\<lambda>k. if k \<in> set xs
        then (BookingDetails (buk w) k)\<lparr>status := expired\<rparr>
        else BookingDetails (buk w) k)\<rparr> \<and>
     this w1 = this w \<and> calls w1 = calls w"
proof (induction xs arbitrary: i w)
  case Nil
  then show ?case by simp
next
  case (Cons x xs)
  from Cons.prems obtain w2 where
    burn: "call_burn (this w) (supplier_contract (Suppliers (buk w) sid))
             (owner (BookingDetails (buk w) x)) x 1 True (set_status x expired w) = Inr w2"
    and rec: "checkout_loop sid (i + 1) xs w2 = Inr w1"
    by (auto simp: bindE_Inr_iff incr_uint8_Inr Let_def split: if_splits)
  note fr = call_burn_frame [OF burn]
  from Cons.IH [OF rec] fr show ?case
    by (auto simp: fun_eq_iff intro!: arg_cong2 [where f = "\<lambda>f s. s\<lparr>BookingDetails := f\<rparr>"])
qed

lemma bookingRefund_loop_buk:
  "bookingRefund_loop i xs w t = Inr (w1, t1) \<Longrightarrow>
     buk w1 = (buk w)\<lparr>BookingDetails := (\<lambda>k. if k \<in> set xs
        then (BookingDetails (buk w) k)\<lparr>status := cancelled\<rparr>
        else BookingDetails (buk w) k)\<rparr> \<and>
     this w1 = this w \<and> calls w1 = calls w \<and> ledgers w1 = ledgers w \<and>
     utilities w1 = utilities w"
proof (induction xs arbitrary: i w t)
  case Nil
  then show ?case by simp
next
  case (Cons x xs)
  from Cons.prems obtain t2 where
    rec: "bookingRefund_loop (i + 1) xs (set_status x cancelled w) t2 = Inr (w1, t1)"
    by (auto simp: bindE_Inr_iff incr_uint8_Inr Let_def split: if_splits)
  from Cons.IH [OF rec] show ?case
    by (auto simp: fun_eq_iff intro!: arg_cong2 [where f = "\<lambda>f s. s\<lparr>BookingDetails := f\<rparr>"])
qed

lemma confirmRoom_check_Inr:
  "confirmRoom_check s sender i xs = Inr u \<Longrightarrow>
     (\<forall>x\<in>set xs. status (BookingDetails s x) = booked \<and> owner (BookingDetails s x) = sender)"
  by (induction xs arbitrary: i) (auto simp: bindE_Inr_iff split: if_splits)

lemma confirmRoom_check_ok:
  "\<forall>x\<in>set xs. status (BookingDetails s x) = booked \<and> owner (BookingDetails s x) = sender \<Longrightarrow>
     i + length xs \<le> 255 \<Longrightarrow> confirmRoom_check s sender i xs = Inr ()"
  by (induction xs arbitrary: i) (auto simp: incr_uint8_def)

lemma status_check_Inr:
  "status_check s st i xs = Inr u \<Longrightarrow> (\<forall>x\<in>set xs. status (BookingDetails s x) = st)"
  by (induction xs arbitrary: i) (auto simp: bindE_Inr_iff split: if_splits)

lemma status_check_ok:
  "\<forall>x\<in>set xs. status (BookingDetails s x) = st \<Longrightarrow> i + length xs \<le> 255 \<Longrightarrow>
     status_check s st i xs = Inr ()"
  by (induction xs arbitrary: i) (auto simp: incr_uint8_def)

lemma owner_check_Inr:
  "owner_check s ow i xs = Inr u \<Longrightarrow> (\<forall>x\<in>set xs. owner (BookingDetails s x) = ow)"
  by (induction xs arbitrary: i) (auto simp: bindE_Inr_iff split: if_splits)

text \<open>The booking table after each operation that returns.\<close>

lemma bookRoom_buk:
  assumes "bookRoom ev sender sid count tot br cin cout w = Inr (r, w1)"
  shows "\<exists>acc1. bookRoom_loop count 0 sender sid tot br cin cout (buk w)
            (replicate count 0, 0, 0) = Inr (buk w1, acc1)"
  using assms
  by (auto simp: bookRoom_def bindE_Inr_iff ext_Inr split: if_splits)

lemma confirmRoom_buk:
  assumes "confirmRoom sender sid ids uris st w = Inr w1"
  shows "buk w1 = (buk w)\<lparr>BookingDetails := (\<lambda>k. if k \<in> set ids
        then (BookingDetails (buk w) k)\<lparr>status := confirmed, tokenID := k\<rparr>
        else BookingDetails (buk w) k)\<rparr>"
    and "\<forall>x\<in>set ids. status (BookingDetails (buk w) x) = booked"
  using assms
  by (auto simp: confirmRoom_def bindE_Inr_iff split: if_splits
      dest: confirmRoom_loop_buk confirmRoom_check_Inr)

lemma checkout_buk:
  assumes "checkout sender sid ids w = Inr w1"
  shows "buk w1 = (buk w)\<lparr>BookingDetails := (\<lambda>k. if k \<in> set ids
        then (BookingDetails (buk w) k)\<lparr>status := expired\<rparr>
        else BookingDetails (buk w) k)\<rparr>"
    and "\<forall>x\<in>set ids. status (BookingDetails (buk w) x) = confirmed"
  using assms
  by (auto simp: checkout_def bindE_Inr_iff split: if_splits
      dest: checkout_loop_buk status_check_Inr)

lemma bookingRefund_buk:
  assumes "bookingRefund ev sender sid ids ow w = Inr w1"
  shows "buk w1 = (buk w)\<lparr>BookingDetails := (\<lambda>k. if k \<in> set ids
        then (BookingDetails (buk w) k)\<lparr>status := cancelled\<rparr>
        else BookingDetails (buk w) k)\<rparr>"
    and "\<forall>x\<in>set ids. status (BookingDetails (buk w) x) = booked"
  using assms
  by (auto simp: bookingRefund_def bindE_Inr_iff ext_Inr split: if_splits
      dest: bookingRefund_loop_buk status_check_Inr)

lemma cancelRoom_buk:
  assumes "cancelRoom ev sender sid k penalty refund charges w = Inr w1"
  shows "buk w1 = (buk w)\<lparr>BookingDetails :=
        (BookingDetails (buk w))(k := (BookingDetails (buk w) k)\<lparr>status := cancelled\<rparr>)\<rparr>"
    and "status (BookingDetails (buk w) k) = confirmed"
  using assms
  by (auto simp: cancelRoom_def bindE_Inr_iff ext_Inr Let_def split: if_splits
      dest!: call_burn_frame(1))

lemma toggleNFTStatus_buk:
  assumes "toggleNFTStatus sender now k st w = Inr w1"
  shows "buk w1 = buk w"
  using assms
  by (auto simp: toggleNFTStatus_def call_toggleNFTStatus_def bindE_Inr_iff Let_def
      split: if_splits option.splits)








lemma booking_ok_confirm:
  "booking_ok n k b \<Longrightarrow> status b = booked \<Longrightarrow> booking_ok n k (b\<lparr>status := confirmed, tokenID := k\<rparr>)"
  by (auto simp: booking_ok_def)

lemma booking_ok_expire:
  "booking_ok n k b \<Longrightarrow> status b = confirmed \<Longrightarrow> booking_ok n k (b\<lparr>status := expired\<rparr>)"
  by (auto simp: booking_ok_def)

lemma booking_ok_cancel:
  "booking_ok n k b \<Longrightarrow> status b = confirmed \<or> status b = booked \<Longrightarrow>
     booking_ok n k (b\<lparr>status := cancelled\<rparr>)"
  by (auto simp: booking_ok_def)

lemma booking_ok_new:
  "n < k \<Longrightarrow> k \<le> m \<Longrightarrow> status b = booked \<Longrightarrow> tokenID b = 0 \<Longrightarrow> booking_ok m k b"
  by (auto simp: booking_ok_def)

lemma booking_ok_mono:
  "booking_ok n k b \<Longrightarrow> n \<le> m \<Longrightarrow> k \<le> n \<or> m < k \<Longrightarrow> booking_ok m k b"
  by (auto simp: booking_ok_def)

lemma token_inv_constructed: "constructed w \<Longrightarrow> token_inv (buk w)"
  by (simp add: constructed_def token_inv_def booking_ok_def zero_Booking_def)

lemma token_inv_bookRoom_loop:
  assumes loop: "bookRoom_loop n i sender sid tot br cin cout s acc = Inr (s1, acc1)"
    and inv: "token_inv s"
  shows "token_inv s1"
  unfolding token_inv_def
proof
  fix k
  note B = bookRoom_loop_bookings [OF loop]
  from B have ids: "bookingIds s1 = bookingIds s + n" by blast
  from inv have ok: "booking_ok (bookingIds s) k (BookingDetails s k)"
    by (simp add: token_inv_def)
  consider "k \<le> bookingIds s \<or> bookingIds s + n < k" | "bookingIds s < k \<and> k \<le> bookingIds s + n"
    by linarith
  then show "booking_ok (bookingIds s1) k (BookingDetails s1 k)"
  proof cases
    case 1
    with B have same: "BookingDetails s1 k = BookingDetails s k" by blast
    from booking_ok_mono [OF ok, of "bookingIds s + n"] 1 show ?thesis
      unfolding same ids by simp
  next
    case 2
    with B have "status (BookingDetails s1 k) = booked" "tokenID (BookingDetails s1 k) = 0"
      by blast+
    with 2 show ?thesis unfolding ids by (auto intro: booking_ok_new)
  qed
qed

lemma token_inv_confirmRoom:
  assumes "confirmRoom sender sid ids uris st w = Inr w1" and inv: "token_inv (buk w)"
  shows "token_inv (buk w1)"
  unfolding token_inv_def
proof
  fix k
  note E = confirmRoom_buk [OF assms(1)]
  from inv have ok: "booking_ok (bookingIds (buk w)) k (BookingDetails (buk w) k)"
    by (simp add: token_inv_def)
  show "booking_ok (bookingIds (buk w1)) k (BookingDetails (buk w1) k)"
  proof (cases "k \<in> set ids")
    case True
    with E(2) have "status (BookingDetails (buk w) k) = booked" by blast
    from booking_ok_confirm [OF ok this] True show ?thesis by (simp add: E(1))
  next
    case False
    with ok show ?thesis by (simp add: E(1))
  qed
qed

lemma token_inv_checkout:
  assumes "checkout sender sid ids w = Inr w1" and inv: "token_inv (buk w)"
  shows "token_inv (buk w1)"
  unfolding token_inv_def
proof
  fix k
  note E = checkout_buk [OF assms(1)]
  from inv have ok: "booking_ok (bookingIds (buk w)) k (BookingDetails (buk w) k)"
    by (simp add: token_inv_def)
  show "booking_ok (bookingIds (buk w1)) k (BookingDetails (buk w1) k)"
  proof (cases "k \<in> set ids")
    case True
    with E(2) have "status (BookingDetails (buk w) k) = confirmed" by blast
    from booking_ok_expire [OF ok this] True show ?thesis by (simp add: E(1))
  next
    case False
    with ok show ?thesis by (simp add: E(1))
  qed
qed

lemma token_inv_bookingRefund:
  assumes "bookingRefund ev sender sid ids ow w = Inr w1" and inv: "token_inv (buk w)"
  shows "token_inv (buk w1)"
  unfolding token_inv_def
proof
  fix k
  note E = bookingRefund_buk [OF assms(1)]
  from inv have ok: "booking_ok (bookingIds (buk w)) k (BookingDetails (buk w) k)"
    by (simp add: token_inv_def)
  show "booking_ok (bookingIds (buk w1)) k (BookingDetails (buk w1) k)"
  proof (cases "k \<in> set ids")
    case True
    with E(2) have "status (BookingDetails (buk w) k) = booked" by blast
    then have "status (BookingDetails (buk w) k) = confirmed \<or> status (BookingDetails (buk w) k) = booked"
      by simp
    from booking_ok_cancel [OF ok this] True show ?thesis by (simp add: E(1))
  next
    case False
    with ok show ?thesis by (simp add: E(1))
  qed
qed

lemma token_inv_cancelRoom:
  assumes "cancelRoom ev sender sid k0 penalty refund charges w = Inr w1"
    and inv: "token_inv (buk w)"
  shows "token_inv (buk w1)"
  unfolding token_inv_def
proof
  fix k
  note E = cancelRoom_buk [OF assms(1)]
  from inv have ok: "booking_ok (bookingIds (buk w)) k (BookingDetails (buk w) k)"
    by (simp add: token_inv_def)
  show "booking_ok (bookingIds (buk w1)) k (BookingDetails (buk w1) k)"
  proof (cases "k = k0")
    case True
    with E(2) have "status (BookingDetails (buk w) k) = confirmed \<or> status (BookingDetails (buk w) k) = booked"
      by simp
    from booking_ok_cancel [OF ok this] True show ?thesis by (simp add: E(1))
  next
    case False
    with ok show ?thesis by (simp add: E(1))
  qed
qed

lemma token_inv_perform:
  assumes "perform ev op w = Inr w1" and inv: "token_inv (buk w)"
  shows "token_inv (buk w1)"
proof (cases op)
  case (BookRoom sender sid count tot br cin cout)
  with assms(1) obtain r where "bookRoom ev sender sid count tot br cin cout w = Inr (r, w1)"
    by (auto simp: bindE_Inr_iff)
  from bookRoom_buk [OF this] obtain acc1 where
    "bookRoom_loop count 0 sender sid tot br cin cout (buk w) (replicate count 0, 0, 0)
       = Inr (buk w1, acc1)" by blast
  from token_inv_bookRoom_loop [OF this inv] show ?thesis .
next
  case (ConfirmRoom sender sid ids uris st)
  with assms(1) have "confirmRoom sender sid ids uris st w = Inr w1" by simp
  from token_inv_confirmRoom [OF this inv] show ?thesis .
next
  case (Checkout sender sid ids)
  with assms(1) have "checkout sender sid ids w = Inr w1" by simp
  from token_inv_checkout [OF this inv] show ?thesis .
next
  case (CancelRoom sender sid k penalty refund charges)
  with assms(1) have "cancelRoom ev sender sid k penalty refund charges w = Inr w1" by simp
  from token_inv_cancelRoom [OF this inv] show ?thesis .
next
  case (BookingRefund sender sid ids ow)
  with assms(1) have "bookingRefund ev sender sid ids ow w = Inr w1" by simp
  from token_inv_bookingRefund [OF this inv] show ?thesis .
next
  case (ToggleNFTStatus sender now k st)
  with assms(1) have "toggleNFTStatus sender now k st w = Inr w1" by simp
  from toggleNFTStatus_buk [OF this] inv show ?thesis by simp
next
  case (SetCommission sender c)
  with assms(1) have "buk w1 = (buk w)\<lparr>commission := c\<rparr>"
    by (auto simp: setCommission_def split: if_splits)
  with inv show ?thesis by (simp add: token_inv_def)
next
  case (SetTransferLock sender sid nft_id t)
  with assms(1) obtain f where "buk w1 = (buk w)\<lparr>TimeLocks := f\<rparr>"
    by (auto simp: setTransferLock_def bindE_Inr_iff split: if_splits)
  with inv show ?thesis by (simp add: token_inv_def)
qed

lemma token_inv_transact: "token_inv (buk w) \<Longrightarrow> token_inv (buk (transact ev op w))"
  by (auto simp: transact_def split: sum.splits dest: token_inv_perform)

lemma token_inv_run: "token_inv (buk w) \<Longrightarrow> token_inv (buk (run ops w))"
  by (induction ops arbitrary: w) (auto simp: token_inv_transact)

lemmas op_defs = bookRoom_def confirmRoom_def checkout_def cancelRoom_def bookingRefund_def
  toggleNFTStatus_def setCommission_def setTransferLock_def transact_def
  call_mint_def call_burn_def call_utility_mint_def call_toggleNFTStatus_def
  SupplierContract_mint_def SupplierContract_toggleNFTStatus_def SupplierUtilityContract_mint_def
  erc1155_mint_def erc1155_burn_def



lemma utility_perform_balances:
  "utility_perform op U = Inr U1 \<Longrightarrow> su_balances U tid a \<le> su_balances U1 tid a"
  by (cases op)
    (auto simp: SupplierUtilityContract_grantSupplierRole_def
      SupplierUtilityContract_setContractURI_def SupplierUtilityContract_updateSupplierDetails_def
      SupplierUtilityContract_setURI_def SupplierUtilityContract_mint_def
      SupplierUtilityContract_safeTransferFrom_def SupplierUtilityContract_safeBatchTransferFrom_def
      SupplierUtilityContract__safeTransferFrom_def
      SupplierUtilityContract__safeBatchTransferFrom_def
      SupplierUtilityContract_setApprovalForAll_def
      bindE_Inr_iff erc1155_mint_Inr split: if_splits)

lemma utility_transact_balances:
  "su_balances U tid a \<le> su_balances (utility_transact op U) tid a"
  by (auto simp: utility_transact_def split: sum.splits dest: utility_perform_balances)

lemma utility_run_balances:
  "su_balances U tid a \<le> su_balances (utility_run ops U) tid a"
proof (induction ops arbitrary: U)
  case Nil
  show ?case by simp
next
  case (Cons op ops)
  have "su_balances U tid a \<le> su_balances (utility_transact op U) tid a"
    by (rule utility_transact_balances)
  also have "\<dots> \<le> su_balances (utility_run ops (utility_transact op U)) tid a"
    by (rule Cons.IH)
  finally show ?case by simp
qed

lemma checked_sub_Inr: "checked_sub a b = Inr c \<longleftrightarrow> b \<le> a \<and> c = a - b"
  by (auto simp: checked_sub_def)

lemma transact_Inl: "isl (perform ev op w) \<Longrightarrow> transact ev op w = w"
  by (auto simp: transact_def isl_def)

lemma demo_locked_facts:
  "tokenID (BookingDetails (buk (run demo_locked demo_world)) 1) = 1"
  "owner (BookingDetails (buk (run demo_locked demo_world)) 1) = 7"
  "supplierId (BookingDetails (buk (run demo_locked demo_world)) 1) = 1"
  "checkin (BookingDetails (buk (run demo_locked demo_world)) 1) = 10000"
  "TimeLocks (buk (run demo_locked demo_world)) 1 1 = 3600"
  "supplier_contract (Suppliers (buk (run demo_locked demo_world)) 1) = 101"
  "this (run demo_locked demo_world) = 1001"
  "map_option sc_factory (ledgers (run demo_locked demo_world) 101) = Some {1001}"
  "map_option (\<lambda>L. sc_transferable L 1) (ledgers (run demo_locked demo_world) 101) = Some False"
  by (simp_all add: demo_locked_def op_defs demo_defs eval_defs cong: bindE_cong)

lemma count_list_le_length: "count_list xs k \<le> length xs"
  by (induction xs) auto

lemma confirmRoom_loop_ok:
  assumes "ledgers w sc = Some L" and "this w \<in> sc_factory L" and "a \<noteq> 0"
    and "\<forall>x\<in>set xs. owner (BookingDetails (buk w) x) = a"
    and "\<forall>x\<in>set xs. sc_balances L x a + length xs \<le> max_uint256"
    and "i + length xs \<le> length uris" and "i + length xs \<le> 255"
  shows "\<exists>w1 L1. confirmRoom_loop sc uris st i xs w = Inr w1 \<and> ledgers w1 sc = Some L1 \<and>
           sc_factory L1 = sc_factory L \<and>
           (\<forall>k. sc_balances L1 k a = sc_balances L k a + count_list xs k) \<and>
           (\<forall>k. sc_transferable L1 k = (if k \<in> set xs then st else sc_transferable L k)) \<and>
           (\<forall>c. c \<noteq> sc \<longrightarrow> ledgers w1 c = ledgers w c)"
  using assms
proof (induction xs arbitrary: i w L)
  case Nil
  then show ?case by simp
next
  case (Cons x xs)
  define L' where "L' = L\<lparr>sc_transferable := (sc_transferable L)(x := st),
       sc_balances := (sc_balances L)(x := (sc_balances L x)(a := sc_balances L x a + 1)),
       sc_bookingTickets := (sc_bookingTickets L)(x := uris ! i)\<rparr>"
  define w2 where "w2 = (set_status x confirmed w)\<lparr>ledgers := (ledgers w)(sc \<mapsto> L')\<rparr>"
  define w3 where "w3 = set_tokenID x x w2"
  from Cons.prems have own: "owner (BookingDetails (buk w) x) = a"
    and bal: "sc_balances L x a + 1 \<le> max_uint256" by auto
  have mint: "call_mint (this (set_status x confirmed w)) sc x
      (owner (BookingDetails (buk (set_status x confirmed w)) x)) 1 (uris ! i) st
      (set_status x confirmed w) = Inr w2"
    using Cons.prems(1,2,3) own bal
    by (simp add: call_mint_Inr w2_def L'_def)
  have step: "confirmRoom_loop sc uris st i (x # xs) w = confirmRoom_loop sc uris st (i + 1) xs w3"
    using Cons.prems(6,7) mint by (simp add: Let_def incr_uint8_def w3_def)
  have p1: "ledgers w3 sc = Some L'" by (simp add: w3_def w2_def)
  have p2: "this w3 \<in> sc_factory L'" using Cons.prems(2) by (simp add: w3_def w2_def L'_def)
  have p4: "\<forall>y\<in>set xs. owner (BookingDetails (buk w3) y) = a"
    using Cons.prems(4) by (simp add: w3_def w2_def)
  have p5: "\<forall>y\<in>set xs. sc_balances L' y a + length xs \<le> max_uint256"
    using Cons.prems(5) by (auto simp: L'_def)
  have p6: "i + 1 + length xs \<le> length uris" "i + 1 + length xs \<le> 255"
    using Cons.prems(6,7) by simp_all
  from Cons.IH [OF p1 p2 Cons.prems(3) p4 p5 p6] obtain w1 L1 where
    r: "confirmRoom_loop sc uris st (i + 1) xs w3 = Inr w1" and l: "ledgers w1 sc = Some L1"
    and f: "sc_factory L1 = sc_factory L'"
    and b: "\<forall>k. sc_balances L1 k a = sc_balances L' k a + count_list xs k"
    and t: "\<forall>k. sc_transferable L1 k = (if k \<in> set xs then st else sc_transferable L' k)"
    and o: "\<forall>c. c \<noteq> sc \<longrightarrow> ledgers w1 c = ledgers w3 c"
    by blast
  have f': "sc_factory L1 = sc_factory L" using f by (simp add: L'_def)
  have b': "\<forall>k. sc_balances L1 k a = sc_balances L k a + count_list (x # xs) k"
    using b by (simp add: L'_def)
  have t': "\<forall>k. sc_transferable L1 k = (if k \<in> set (x # xs) then st else sc_transferable L k)"
    using t by (simp add: L'_def)
  have o': "\<forall>c. c \<noteq> sc \<longrightarrow> ledgers w1 c = ledgers w c"
    using o by (simp add: w3_def w2_def)
  have "confirmRoom_loop sc uris st i (x # xs) w = Inr w1" using step r by simp
  with l f' b' t' o' show ?case
    by (intro exI [of _ w1] exI [of _ L1]) simp
qed






lemma confirmRoom_check_fail:
  "\<exists>x\<in>set xs. status (BookingDetails s x) \<noteq> booked \<or> owner (BookingDetails s x) \<noteq> sender \<Longrightarrow>
     isl (confirmRoom_check s sender i xs)"
  by (cases "confirmRoom_check s sender i xs") (auto dest: confirmRoom_check_Inr)

lemma demo_two_facts:
  "sup_status (Suppliers (buk (run demo_two demo_world)) 1)"
  "\<forall>x\<in>set [1, 2]. status (BookingDetails (buk (run demo_two demo_world)) x) = booked \<and>
                      owner (BookingDetails (buk (run demo_two demo_world)) x) = 7"
  "ledgers (run demo_two demo_world)
     (supplier_contract (Suppliers (buk (run demo_two demo_world)) 1)) = Some (demo_ledger 201)"
  "this (run demo_two demo_world) \<in> sc_factory (demo_ledger 201)"
  "\<forall>x\<in>set [1, 2]. sc_balances (demo_ledger 201) x 7 + length [1::nat, 2] \<le> max_uint256"
  by (simp_all add: demo_two_def op_defs demo_defs eval_defs bookRoom_loop_numeral
      cong: bindE_cong)

lemma demo_eleven_facts:
  "sup_status (Suppliers (buk (run demo_eleven demo_world)) 1)"
  "\<forall>x\<in>set [1, 2, 3, 4, 5, 6, 7, 8, 9, 10, 11].
      status (BookingDetails (buk (run demo_eleven demo_world)) x) = booked \<and>
      owner (BookingDetails (buk (run demo_eleven demo_world)) x) = 7"
  by (simp_all add: demo_eleven_def op_defs demo_defs eval_defs bookRoom_loop_numeral
      cong: bindE_cong)

lemma call_burn_ok:
  assumes "ledgers w sc = Some L" and "caller \<in> sc_factory L" and "account \<noteq> 0"
    and "amount \<le> sc_balances L tid account"
    and "utility \<longrightarrow> (\<exists>U. utilities w (sc_utility_contract L) = Some U \<and>
            sc \<in> su_supplier_role U \<and> su_balances U tid account + amount \<le> max_uint256)"
  shows "\<exists>w1 L1. call_burn caller sc account tid amount utility w = Inr w1 \<and>
           ledgers w1 sc = Some L1 \<and>
           sc_balances L1 tid account = sc_balances L tid account - amount \<and>
           sc_factory L1 = sc_factory L \<and>
           (\<forall>c. c \<noteq> sc \<longrightarrow> ledgers w1 c = ledgers w c) \<and>
           buk w1 = buk w \<and> this w1 = this w \<and> calls w1 = calls w"
proof (cases utility)
  case False
  with assms show ?thesis
    by (simp add: call_burn_def Let_def erc1155_burn_def)
next
  case True
  with assms obtain U where "utilities w (sc_utility_contract L) = Some U"
    "sc \<in> su_supplier_role U" "su_balances U tid account + amount \<le> max_uint256" by blast
  with True assms(1-4) show ?thesis
    by (simp add: call_burn_def Let_def erc1155_burn_def call_utility_mint_def
        SupplierUtilityContract_mint_def erc1155_mint_def checked_add_def)
qed

lemma confirmRoom_ok:
  assumes "sup_status (Suppliers (buk w) sid)"
    and "\<forall>x\<in>set ids. status (BookingDetails (buk w) x) = booked \<and>
                      owner (BookingDetails (buk w) x) = sender"
    and "length ids = length uris" and "length ids < 11"
    and "ledgers w (supplier_contract (Suppliers (buk w) sid)) = Some L"
    and "this w \<in> sc_factory L" and "sender \<noteq> 0"
    and "\<forall>x\<in>set ids. sc_balances L x sender + length ids \<le> max_uint256"
  shows "\<exists>w1 L1. confirmRoom sender sid ids uris st w = Inr w1 \<and>
           ledgers w1 (supplier_contract (Suppliers (buk w) sid)) = Some L1 \<and>
           (\<forall>k. sc_balances L1 k sender = sc_balances L k sender + count_list ids k) \<and>
           (\<forall>c. c \<noteq> supplier_contract (Suppliers (buk w) sid) \<longrightarrow> ledgers w1 c = ledgers w c)"
proof -
  from assms have chk: "confirmRoom_check (buk w) sender 0 ids = Inr ()"
    by (intro confirmRoom_check_ok) auto
  from assms have "\<exists>w1 L1. confirmRoom_loop (supplier_contract (Suppliers (buk w) sid)) uris st 0 ids w
        = Inr w1 \<and> ledgers w1 (supplier_contract (Suppliers (buk w) sid)) = Some L1 \<and>
      sc_factory L1 = sc_factory L \<and>
      (\<forall>k. sc_balances L1 k sender = sc_balances L k sender + count_list ids k) \<and>
      (\<forall>k. sc_transferable L1 k = (if k \<in> set ids then st else sc_transferable L k)) \<and>
      (\<forall>c. c \<noteq> supplier_contract (Suppliers (buk w) sid) \<longrightarrow> ledgers w1 c = ledgers w c)"
    by (intro confirmRoom_loop_ok) auto
  then obtain w1 L1 where
    loop: "confirmRoom_loop (supplier_contract (Suppliers (buk w) sid)) uris st 0 ids w = Inr w1"
    and l: "ledgers w1 (supplier_contract (Suppliers (buk w) sid)) = Some L1"
    and b: "\<forall>k. sc_balances L1 k sender = sc_balances L k sender + count_list ids k"
    and o: "\<forall>c. c \<noteq> supplier_contract (Suppliers (buk w) sid) \<longrightarrow> ledgers w1 c = ledgers w c"
    by blast
  from assms(1,3,4) chk loop have "confirmRoom sender sid ids uris st w = Inr w1"
    by (simp add: confirmRoom_def)
  with l b o show ?thesis by (intro exI [of _ w1] exI [of _ L1]) simp
qed

lemma checkout_single_ok:
  assumes "sender \<in> admins (buk w)" and "sup_status (Suppliers (buk w) sid)"
    and "status (BookingDetails (buk w) k) = confirmed"
    and "ledgers w (supplier_contract (Suppliers (buk w) sid)) = Some L"
    and "this w \<in> sc_factory L" and "owner (BookingDetails (buk w) k) \<noteq> 0"
    and "1 \<le> sc_balances L k (owner (BookingDetails (buk w) k))"
    and "utilities w (sc_utility_contract L) = Some U"
    and "supplier_contract (Suppliers (buk w) sid) \<in> su_supplier_role U"
    and "su_balances U k (owner (BookingDetails (buk w) k)) < max_uint256"
  shows "\<exists>w1 L1. checkout sender sid [k] w = Inr w1 \<and>
           ledgers w1 (supplier_contract (Suppliers (buk w) sid)) = Some L1 \<and>
           sc_balances L1 k (owner (BookingDetails (buk w) k))
             = sc_balances L k (owner (BookingDetails (buk w) k)) - 1 \<and>
           (\<forall>c. c \<noteq> supplier_contract (Suppliers (buk w) sid) \<longrightarrow> ledgers w1 c = ledgers w c)"
proof -
  let ?w = "set_status k expired w"
  have "\<exists>w1 L1. call_burn (this ?w) (supplier_contract (Suppliers (buk w) sid))
           (owner (BookingDetails (buk w) k)) k 1 True ?w = Inr w1 \<and>
           ledgers w1 (supplier_contract (Suppliers (buk w) sid)) = Some L1 \<and>
           sc_balances L1 k (owner (BookingDetails (buk w) k))
             = sc_balances L k (owner (BookingDetails (buk w) k)) - 1 \<and>
           sc_factory L1 = sc_factory L \<and>
           (\<forall>c. c \<noteq> supplier_contract (Suppliers (buk w) sid) \<longrightarrow> ledgers w1 c = ledgers ?w c) \<and>
           buk w1 = buk ?w \<and> this w1 = this ?w \<and> calls w1 = calls ?w"
    using assms by (intro call_burn_ok) auto
  then obtain w1 L1 where
    burn: "call_burn (this ?w) (supplier_contract (Suppliers (buk w) sid))
           (owner (BookingDetails (buk w) k)) k 1 True ?w = Inr w1"
    and l: "ledgers w1 (supplier_contract (Suppliers (buk w) sid)) = Some L1"
    and b: "sc_balances L1 k (owner (BookingDetails (buk w) k))
             = sc_balances L k (owner (BookingDetails (buk w) k)) - 1"
    and o: "\<forall>c. c \<noteq> supplier_contract (Suppliers (buk w) sid) \<longrightarrow> ledgers w1 c = ledgers ?w c"
    by blast
  from assms(1,2,3) burn have "checkout sender sid [k] w = Inr w1"
    by (simp add: checkout_def Let_def incr_uint8_def)
  with l b o show ?thesis by (intro exI [of _ w1] exI [of _ L1]) simp
qed

lemma cancelRoom_ok:
  assumes "sender \<in> admins (buk w)" and "sup_status (Suppliers (buk w) sid)"
    and "status (BookingDetails (buk w) k) = confirmed"
    and "ledgers w (supplier_contract (Suppliers (buk w) sid)) = Some L"
    and "this w \<in> sc_factory L" and "owner (BookingDetails (buk w) k) \<noteq> 0"
    and "1 \<le> sc_balances L k (owner (BookingDetails (buk w) k))"
    and "\<forall>log c. ev log c \<noteq> Reverted"
  shows "\<exists>w1 L1. cancelRoom ev sender sid k penalty refund charges w = Inr w1 \<and>
           calls w1 = calls w @
             [CancelUSDCRefund penalty
                (supplier_owner (Suppliers (buk w) (supplierId (BookingDetails (buk w) k)))),
              CancelUSDCRefund refund (owner (BookingDetails (buk w) k)),
              CancelUSDCRefund charges (buk_wallet (buk w))] \<and>
           ledgers w1 (supplier_contract (Suppliers (buk w) sid)) = Some L1 \<and>
           sc_balances L1 k (owner (BookingDetails (buk w) k))
             = sc_balances L k (owner (BookingDetails (buk w) k)) - 1 \<and>
           (\<forall>c. c \<noteq> supplier_contract (Suppliers (buk w) sid) \<longrightarrow> ledgers w1 c = ledgers w c)"
proof -
  define cs where "cs = [CancelUSDCRefund penalty
                (supplier_owner (Suppliers (buk w) (supplierId (BookingDetails (buk w) k)))),
              CancelUSDCRefund refund (owner (BookingDetails (buk w) k)),
              CancelUSDCRefund charges (buk_wallet (buk w))]"
  let ?w = "(set_status k cancelled w)\<lparr>calls := calls w @ cs\<rparr>"
  have "\<exists>w1 L1. call_burn (this ?w) (supplier_contract (Suppliers (buk w) sid))
           (owner (BookingDetails (buk w) k)) k 1 False ?w = Inr w1 \<and>
           ledgers w1 (supplier_contract (Suppliers (buk w) sid)) = Some L1 \<and>
           sc_balances L1 k (owner (BookingDetails (buk w) k))
             = sc_balances L k (owner (BookingDetails (buk w) k)) - 1 \<and>
           sc_factory L1 = sc_factory L \<and>
           (\<forall>c. c \<noteq> supplier_contract (Suppliers (buk w) sid) \<longrightarrow> ledgers w1 c = ledgers ?w c) \<and>
           buk w1 = buk ?w \<and> this w1 = this ?w \<and> calls w1 = calls ?w"
    using assms by (intro call_burn_ok) auto
  then obtain w1 L1 where
    burn: "call_burn (this ?w) (supplier_contract (Suppliers (buk w) sid))
           (owner (BookingDetails (buk w) k)) k 1 False ?w = Inr w1"
    and l: "ledgers w1 (supplier_contract (Suppliers (buk w) sid)) = Some L1"
    and b: "sc_balances L1 k (owner (BookingDetails (buk w) k))
             = sc_balances L k (owner (BookingDetails (buk w) k)) - 1"
    and o: "\<forall>c. c \<noteq> supplier_contract (Suppliers (buk w) sid) \<longrightarrow> ledgers w1 c = ledgers ?w c"
    and c: "calls w1 = calls ?w"
    by blast
  have e: "\<And>c v. ext ev c v = Inr (case ev (calls v) c of Returned b \<Rightarrow> b, v\<lparr>calls := calls v @ [c]\<rparr>)"
    using assms(8) by (auto simp: ext_def split: ext_result.splits)
  from assms(1,2,3) burn have "cancelRoom ev sender sid k penalty refund charges w = Inr w1"
    by (simp add: cancelRoom_def Let_def e cs_def)
  with l b o c show ?thesis unfolding cs_def by (intro exI [of _ w1] exI [of _ L1]) simp
qed




lemma demo_cross_booked:
  "sup_status (Suppliers (buk (run (take 1 demo_cross) demo_world)) 2)"
  "supplierId (BookingDetails (buk (run (take 1 demo_cross) demo_world)) 1) = 1"
  "status (BookingDetails (buk (run (take 1 demo_cross) demo_world)) 1) = booked"
  "owner (BookingDetails (buk (run (take 1 demo_cross) demo_world)) 1) = 7"
  "supplier_contract (Suppliers (buk (run (take 1 demo_cross) demo_world)) 2) = 102"
  "ledgers (run (take 1 demo_cross) demo_world) 102 = Some (demo_ledger 202)"
  "ledgers (run (take 1 demo_cross) demo_world) 101 = Some (demo_ledger 201)"
  "this (run (take 1 demo_cross) demo_world) = 1001"
  by (simp_all add: demo_cross_def op_defs demo_defs eval_defs cong: bindE_cong)

lemma demo_cross_confirmed:
  "sup_status (Suppliers (buk (run demo_cross demo_world)) 2)"
  "supplierId (BookingDetails (buk (run demo_cross demo_world)) 1) = 1"
  "status (BookingDetails (buk (run demo_cross demo_world)) 1) = confirmed"
  "owner (BookingDetails (buk (run demo_cross demo_world)) 1) = 7"
  "supplier_contract (Suppliers (buk (run demo_cross demo_world)) 2) = 102"
  "supplier_owner (Suppliers (buk (run demo_cross demo_world)) 1) = 501"
  "supplier_owner (Suppliers (buk (run demo_cross demo_world)) 2) = 502"
  "buk_wallet (buk (run demo_cross demo_world)) = 900"
  "this (run demo_cross demo_world) = 1001"
  "admins (buk (run demo_cross demo_world)) = {1000}"
  "map_option (\<lambda>L. (sc_factory L, sc_utility_contract L, sc_balances L 1 7))
     (ledgers (run demo_cross demo_world) 102) = Some ({1001}, 202, 1)"
  "utilities (run demo_cross demo_world) 202 = Some (demo_utility 102)"
  "calls (run demo_cross demo_world) = [TransferFrom 7 900 2, TransferFrom 7 902 100]"
  by (simp_all add: demo_cross_def op_defs demo_defs eval_defs cong: bindE_cong)

lemma status_edges:
  assumes inv: "token_inv (buk w)"
  shows "status (BookingDetails (buk (transact ev op w)) k) = status (BookingDetails (buk w) k) \<or>
         edge (status (BookingDetails (buk w) k))
              (status (BookingDetails (buk (transact ev op w)) k))"
proof (cases "perform ev op w")
  case (Inl e)
  then show ?thesis by (simp add: transact_def)
next
  case (Inr w1)
  then have t: "transact ev op w = w1" by (simp add: transact_def)
  have "status (BookingDetails (buk w1) k) = status (BookingDetails (buk w) k) \<or>
         edge (status (BookingDetails (buk w) k)) (status (BookingDetails (buk w1) k))"
  proof (cases op)
    case (BookRoom sender sid count tot br cin cout)
    with Inr obtain r where "bookRoom ev sender sid count tot br cin cout w = Inr (r, w1)"
      by (auto simp: bindE_Inr_iff)
    from bookRoom_buk [OF this] obtain acc1 where
      loop: "bookRoom_loop count 0 sender sid tot br cin cout (buk w) (replicate count 0, 0, 0)
         = Inr (buk w1, acc1)" by blast
    note B = bookRoom_loop_bookings [OF loop]
    consider "k \<le> bookingIds (buk w) \<or> bookingIds (buk w) + count < k"
      | "bookingIds (buk w) < k \<and> k \<le> bookingIds (buk w) + count" by linarith
    then show ?thesis
    proof cases
      case 1
      with B have "BookingDetails (buk w1) k = BookingDetails (buk w) k" by blast
      then show ?thesis by simp
    next
      case 2
      with B have "status (BookingDetails (buk w1) k) = booked" by blast
      moreover from inv 2 have "status (BookingDetails (buk w) k) = nil"
        by (simp add: token_inv_def booking_ok_def)
      ultimately show ?thesis by (simp add: edge_def)
    qed
  next
    case (ConfirmRoom sender sid ids uris st)
    with Inr have "confirmRoom sender sid ids uris st w = Inr w1" by simp
    from confirmRoom_buk [OF this] show ?thesis by (auto simp: edge_def)
  next
    case (Checkout sender sid ids)
    with Inr have "checkout sender sid ids w = Inr w1" by simp
    from checkout_buk [OF this] show ?thesis by (auto simp: edge_def)
  next
    case (CancelRoom sender sid k0 penalty refund charges)
    with Inr have "cancelRoom ev sender sid k0 penalty refund charges w = Inr w1" by simp
    from cancelRoom_buk [OF this] show ?thesis by (auto simp: edge_def)
  next
    case (BookingRefund sender sid ids ow)
    with Inr have "bookingRefund ev sender sid ids ow w = Inr w1" by simp
    from bookingRefund_buk [OF this] show ?thesis by (auto simp: edge_def)
  next
    case (ToggleNFTStatus sender now k0 st)
    with Inr have "toggleNFTStatus sender now k0 st w = Inr w1" by simp
    from toggleNFTStatus_buk [OF this] show ?thesis by simp
  next
    case (SetCommission sender c)
    with Inr have "buk w1 = (buk w)\<lparr>commission := c\<rparr>"
      by (auto simp: setCommission_def split: if_splits)
    then show ?thesis by simp
  next
    case (SetTransferLock sender sid nft_id t)
    with Inr obtain f where "buk w1 = (buk w)\<lparr>TimeLocks := f\<rparr>"
      by (auto simp: setTransferLock_def bindE_Inr_iff split: if_splits)
    then show ?thesis by simp
  qed
  then show ?thesis by (simp add: t)
qed

lemma booking_ok_confirmed:
  "booking_ok n k b \<Longrightarrow> status b = confirmed \<Longrightarrow> tokenID b = k \<and> k \<noteq> 0 \<and> k \<le> n"
  by (cases "k = 0"; cases "n < k") (auto simp: booking_ok_def)

lemma booking_ok_booked:
  "booking_ok n k b \<Longrightarrow> status b = booked \<Longrightarrow> tokenID b = 0"
  by (auto simp: booking_ok_def)

lemma booking_ok_written:
  "booking_ok n k b \<Longrightarrow> status b \<noteq> nil \<Longrightarrow> k \<le> n"
  by (cases "n < k") (auto simp: booking_ok_def)

lemma cancel_step:
  assumes inv: "token_inv (buk w)"
    and before: "status (BookingDetails (buk w) k) \<noteq> cancelled"
    and after: "status (BookingDetails (buk (transact ev op w)) k) = cancelled"
  shows "case op of
           BookingRefund sender sid ids ow \<Rightarrow>
             status (BookingDetails (buk w) k) = booked \<and>
             tokenID (BookingDetails (buk (transact ev op w)) k) = 0
         | CancelRoom sender sid j penalty refund charges \<Rightarrow>
             j = k \<and> status (BookingDetails (buk w) k) = confirmed \<and>
             tokenID (BookingDetails (buk (transact ev op w)) k) = k \<and> k \<noteq> 0
         | _ \<Rightarrow> False"
proof (cases "perform ev op w")
  case (Inl e)
  then have "transact ev op w = w" by (simp add: transact_def)
  with before after show ?thesis by simp
next
  case (Inr w1)
  then have t: "transact ev op w = w1" by (simp add: transact_def)
  from inv have ok: "booking_ok (bookingIds (buk w)) k (BookingDetails (buk w) k)"
    by (simp add: token_inv_def)
  from after have after1: "status (BookingDetails (buk w1) k) = cancelled" by (simp add: t)
  have "case op of
           BookingRefund sender sid ids ow \<Rightarrow>
             status (BookingDetails (buk w) k) = booked \<and>
             tokenID (BookingDetails (buk w1) k) = 0
         | CancelRoom sender sid j penalty refund charges \<Rightarrow>
             j = k \<and> status (BookingDetails (buk w) k) = confirmed \<and>
             tokenID (BookingDetails (buk w1) k) = k \<and> k \<noteq> 0
         | _ \<Rightarrow> False"
  proof (cases op)
    case (BookRoom sender sid count tot br cin cout)
    with Inr obtain r where "bookRoom ev sender sid count tot br cin cout w = Inr (r, w1)"
      by (auto simp: bindE_Inr_iff)
    from bookRoom_buk [OF this] obtain acc1 where
      loop: "bookRoom_loop count 0 sender sid tot br cin cout (buk w) (replicate count 0, 0, 0)
         = Inr (buk w1, acc1)" by blast
    note B = bookRoom_loop_bookings [OF loop]
    consider "k \<le> bookingIds (buk w) \<or> bookingIds (buk w) + count < k"
      | "bookingIds (buk w) < k \<and> k \<le> bookingIds (buk w) + count" by linarith
    then have False
    proof cases
      case 1
      with B have "BookingDetails (buk w1) k = BookingDetails (buk w) k" by blast
      with before after1 show False by simp
    next
      case 2
      with B have "status (BookingDetails (buk w1) k) = booked" by blast
      with after1 show False by simp
    qed
    then show ?thesis ..
  next
    case (ConfirmRoom sender sid ids uris st)
    with Inr have "confirmRoom sender sid ids uris st w = Inr w1" by simp
    from confirmRoom_buk(1) [OF this] before after1 have False
      by (auto split: if_splits)
    then show ?thesis ..
  next
    case (Checkout sender sid ids)
    with Inr have "checkout sender sid ids w = Inr w1" by simp
    from checkout_buk(1) [OF this] before after1 have False
      by (auto split: if_splits)
    then show ?thesis ..
  next
    case (CancelRoom sender sid j penalty refund charges)
    with Inr have res: "cancelRoom ev sender sid j penalty refund charges w = Inr w1" by simp
    note E = cancelRoom_buk [OF res]
    from E(1) before after1 have jk: "j = k" by (auto split: if_splits)
    with E(2) have c: "status (BookingDetails (buk w) k) = confirmed" by simp
    from booking_ok_confirmed [OF ok c] have "tokenID (BookingDetails (buk w) k) = k" "k \<noteq> 0"
      by simp_all
    with E(1) jk c show ?thesis by (simp add: CancelRoom)
  next
    case (BookingRefund sender sid ids ow)
    with Inr have res: "bookingRefund ev sender sid ids ow w = Inr w1" by simp
    note E = bookingRefund_buk [OF res]
    from E(1) before after1 have mem: "k \<in> set ids" by (auto split: if_splits)
    with E(2) have b: "status (BookingDetails (buk w) k) = booked" by blast
    from booking_ok_booked [OF ok b] E(1) mem b show ?thesis
      by (simp add: BookingRefund)
  next
    case (ToggleNFTStatus sender now k0 st)
    with Inr have "toggleNFTStatus sender now k0 st w = Inr w1" by simp
    from toggleNFTStatus_buk [OF this] before after1 have False by simp
    then show ?thesis ..
  next
    case (SetCommission sender c)
    with Inr have "buk w1 = (buk w)\<lparr>commission := c\<rparr>"
      by (auto simp: setCommission_def split: if_splits)
    with before after1 have False by simp
    then show ?thesis ..
  next
    case (SetTransferLock sender sid nft_id t)
    with Inr obtain f where "buk w1 = (buk w)\<lparr>TimeLocks := f\<rparr>"
      by (auto simp: setTransferLock_def bindE_Inr_iff split: if_splits)
    with before after1 have False by simp
    then show ?thesis ..
  qed
  then show ?thesis unfolding t .
qed

lemma cancelled_frozen:
  assumes inv: "token_inv (buk w)"
    and c: "status (BookingDetails (buk w) k) = cancelled"
  shows "BookingDetails (buk (transact ev op w)) k = BookingDetails (buk w) k"
proof (cases "perform ev op w")
  case (Inl e)
  then show ?thesis by (simp add: transact_def)
next
  case (Inr w1)
  then have t: "transact ev op w = w1" by (simp add: transact_def)
  from inv have ok: "booking_ok (bookingIds (buk w)) k (BookingDetails (buk w) k)"
    by (simp add: token_inv_def)
  have "BookingDetails (buk w1) k = BookingDetails (buk w) k"
  proof (cases op)
    case (BookRoom sender sid count tot br cin cout)
    with Inr obtain r where "bookRoom ev sender sid count tot br cin cout w = Inr (r, w1)"
      by (auto simp: bindE_Inr_iff)
    from bookRoom_buk [OF this] obtain acc1 where
      loop: "bookRoom_loop count 0 sender sid tot br cin cout (buk w) (replicate count 0, 0, 0)
         = Inr (buk w1, acc1)" by blast
    from booking_ok_written [OF ok] c have "k \<le> bookingIds (buk w)" by simp
    with bookRoom_loop_bookings [OF loop] show ?thesis by blast
  next
    case (ConfirmRoom sender sid ids uris st)
    with Inr have "confirmRoom sender sid ids uris st w = Inr w1" by simp
    from confirmRoom_buk [OF this] c show ?thesis by auto
  next
    case (Checkout sender sid ids)
    with Inr have "checkout sender sid ids w = Inr w1" by simp
    from checkout_buk [OF this] c show ?thesis by auto
  next
    case (CancelRoom sender sid j penalty refund charges)
    with Inr have "cancelRoom ev sender sid j penalty refund charges w = Inr w1" by simp
    from cancelRoom_buk [OF this] c show ?thesis by auto
  next
    case (BookingRefund sender sid ids ow)
    with Inr have "bookingRefund ev sender sid ids ow w = Inr w1" by simp
    from bookingRefund_buk [OF this] c show ?thesis by auto
  next
    case (ToggleNFTStatus sender now k0 st)
    with Inr have "toggleNFTStatus sender now k0 st w = Inr w1" by simp
    from toggleNFTStatus_buk [OF this] show ?thesis by simp
  next
    case (SetCommission sender c)
    with Inr have "buk w1 = (buk w)\<lparr>commission := c\<rparr>"
      by (auto simp: setCommission_def split: if_splits)
    then show ?thesis by simp
  next
    case (SetTransferLock sender sid nft_id t)
    with Inr obtain f where "buk w1 = (buk w)\<lparr>TimeLocks := f\<rparr>"
      by (auto simp: setTransferLock_def bindE_Inr_iff split: if_splits)
    then show ?thesis by simp
  qed
  then show ?thesis by (simp add: t)
qed

lemma call_burn_needs_balance:
  "call_burn caller sc account tid amount utility w = Inr w1 \<Longrightarrow>
     \<exists>L. ledgers w sc = Some L \<and> amount \<le> sc_balances L tid account"
  by (auto simp: call_burn_def Let_def bindE_Inr_iff erc1155_burn_Inr
      split: option.splits if_splits)

lemma checkout_short:
  assumes "ledgers w (supplier_contract (Suppliers (buk w) sid)) = Some L"
    and "sc_balances L k (owner (BookingDetails (buk w) k)) = 0"
  shows "isl (checkout sender sid [k] w)"
proof (cases "checkout sender sid [k] w")
  case (Inl e)
  then show ?thesis by simp
next
  case (Inr w1)
  with assms have False
    by (auto simp: checkout_def bindE_Inr_iff Let_def split: if_splits
        dest!: call_burn_needs_balance)
  then show ?thesis ..
qed

lemma cancelRoom_short:
  assumes "ledgers w (supplier_contract (Suppliers (buk w) sid)) = Some L"
    and "sc_balances L k (owner (BookingDetails (buk w) k)) = 0"
  shows "isl (cancelRoom ev sender sid k penalty refund charges w)"
proof (cases "cancelRoom ev sender sid k penalty refund charges w")
  case (Inl e)
  then show ?thesis by simp
next
  case (Inr w1)
  with assms have False
    by (auto simp: cancelRoom_def bindE_Inr_iff Let_def ext_Inr split: if_splits
        dest!: call_burn_needs_balance)
  then show ?thesis ..
qed

lemma demo_own_confirmed:
  "sup_status (Suppliers (buk (run (take 2 demo_cancel) demo_world)) 2)"
  "supplierId (BookingDetails (buk (run (take 2 demo_cancel) demo_world)) 1) = 1"
  "owner (BookingDetails (buk (run (take 2 demo_cancel) demo_world)) 1) = 7"
  "supplier_contract (Suppliers (buk (run (take 2 demo_cancel) demo_world)) 2) = 102"
  "ledgers (run (take 2 demo_cancel) demo_world) 102 = Some (demo_ledger 202)"
  "this (run (take 2 demo_cancel) demo_world) = 1001"
  by (simp_all add: demo_cancel_def op_defs demo_defs eval_defs cong: bindE_cong)

subsection \<open>The commission of a booking\<close>

text \<open>
  C7: in \<^verbatim>\<open>bookRoom\<close> the commission total is the sum, over the rooms booked, of
  \<^verbatim>\<open>baseRate[i] * commission / 100\<close> with truncating division per room, computed on the
  base rate and not on the total. With base rates 100 and 200 at 5 percent the commission
  collected is 15; a single base rate of 101 contributes 5.
\<close>

theorem bookRoom_commissionTotal:
  "(commissionTotal_of (bookRoom_loop count 0 sender sid tot br cin cout s (replicate count 0, 0, 0))
      = Some c \<longrightarrow> c = (\<Sum>b\<leftarrow>take count br. b * commission s div 100)) \<and>
   calls (world_after demo_world
      (bookRoom env_accept 7 1 2 [100, 100] [100, 200] 10 20 demo_world))
     = [TransferFrom 7 900 15, TransferFrom 7 902 200] \<and>
   calls (world_after demo_world (bookRoom env_accept 7 1 1 [101] [101] 10 20 demo_world))
     = [TransferFrom 7 900 5, TransferFrom 7 902 101]"
proof (intro conjI impI)
  assume "commissionTotal_of
      (bookRoom_loop count 0 sender sid tot br cin cout s (replicate count 0, 0, 0)) = Some c"
  then obtain s1 bk t where
    "bookRoom_loop count 0 sender sid tot br cin cout s (replicate count 0, 0, 0)
       = Inr (s1, bk, t, c)"
    by (auto simp: commissionTotal_of_def split: sum.splits)
  from bookRoom_loop_sums [OF this]
  show "c = (\<Sum>b\<leftarrow>take count br. b * commission s div 100)" by simp
next
  show "calls (world_after demo_world
      (bookRoom env_accept 7 1 2 [100, 100] [100, 200] 10 20 demo_world))
     = [TransferFrom 7 900 15, TransferFrom 7 902 200]"
    by (simp add: bookRoom_def demo_defs eval_defs bookRoom_loop_numeral cong: bindE_cong)
next
  show "calls (world_after demo_world (bookRoom env_accept 7 1 1 [101] [101] 10 20 demo_world))
     = [TransferFrom 7 900 5, TransferFrom 7 902 101]"
    by (simp add: bookRoom_def demo_defs eval_defs cong: bindE_cong)
qed

theorem bookRoom_commissionTotal_witness:
  "commissionTotal_of (bookRoom_loop 2 0 7 1 [100, 100] [100, 200] 10 20 demo_buk
      (replicate 2 0, 0, 0)) = Some 15 \<and>
   (15::nat) = (\<Sum>b\<leftarrow>take 2 [100, 200]. b * commission demo_buk div 100)"
proof -
  have h: "commissionTotal_of (bookRoom_loop 2 0 7 1 [100, 100] [100, 200] 10 20 demo_buk
      (replicate 2 0, 0, 0)) = Some 15"
    by (simp add: commissionTotal_of_def demo_defs eval_defs bookRoom_loop_numeral cong: bindE_cong)
  from bookRoom_commissionTotal [of 2 7 1 "[100, 100]" "[100, 200]" 10 20 demo_buk 15] h
  have "(15::nat) = (\<Sum>b\<leftarrow>take 2 [100, 200]. b * commission demo_buk div 100)" by blast
  with h show ?thesis by blast
qed

subsection \<open>A refused commission\<close>

text \<open>
  C1, as stated, fails: when the currency ledger refuses the commission, \<^verbatim>\<open>bookRoom\<close>
  returns false, but the record it wrote for the room is still there and the counter has
  moved from 0 to 1.
\<close>

theorem bookRoom_commission_failure_counterexample:
  "env_refuse (calls demo_world) (TransferFrom 7 (buk_wallet (buk demo_world)) 2) = Returned False \<and>
   returned (bookRoom env_refuse 7 1 1 [100] [50] 10 20 demo_world) = Some False \<and>
   bookingIds (buk demo_world) = 0 \<and>
   status (BookingDetails (buk demo_world) 1) = nil \<and>
   bookingIds (buk (world_after demo_world
      (bookRoom env_refuse 7 1 1 [100] [50] 10 20 demo_world))) = 1 \<and>
   status (BookingDetails (buk (world_after demo_world
      (bookRoom env_refuse 7 1 1 [100] [50] 10 20 demo_world))) 1) = booked"
  by (simp add: bookRoom_def demo_defs eval_defs zero_Booking_def cong: bindE_cong)

text \<open>
  C1, amended: whenever \<^verbatim>\<open>bookRoom\<close> returns and the currency ledger has refused the
  commission, it returns false; the records written by the loop remain, one in status
  \<open>booked\<close> for each room, the counter is advanced by the number of rooms, and the
  bookings that existed before are untouched.
\<close>

theorem bookRoom_commission_failure:
  assumes ret: "returned (bookRoom ev sender sid count tot br cin cout w) = Some r"
    and fail: "ev (calls w) (TransferFrom sender (buk_wallet (buk w))
                 (\<Sum>b\<leftarrow>take count br. b * commission (buk w) div 100)) = Returned False"
  shows "r = False \<and>
     bookingIds (buk (world_after w (bookRoom ev sender sid count tot br cin cout w)))
       = bookingIds (buk w) + count \<and>
     (\<forall>k. bookingIds (buk w) < k \<and> k \<le> bookingIds (buk w) + count \<longrightarrow>
        status (BookingDetails
          (buk (world_after w (bookRoom ev sender sid count tot br cin cout w))) k) = booked) \<and>
     (\<forall>k. k \<le> bookingIds (buk w) \<longrightarrow>
        BookingDetails (buk (world_after w (bookRoom ev sender sid count tot br cin cout w))) k
          = BookingDetails (buk w) k)"
proof -
  from ret obtain w1 where res: "bookRoom ev sender sid count tot br cin cout w = Inr (r, w1)"
    by (auto simp: returned_Some_iff)
  then obtain s bk t c where
    loop: "bookRoom_loop count 0 sender sid tot br cin cout (buk w) (replicate count 0, 0, 0)
             = Inr (s, bk, t, c)"
    by (auto simp: bookRoom_def bindE_Inr_iff split: if_splits)
  from bookRoom_loop_sums [OF loop]
  have c: "c = (\<Sum>b\<leftarrow>take count br. b * commission (buk w) div 100)" by simp
  have wal: "buk_wallet s = buk_wallet (buk w)" by (rule bookRoom_loop_wallet [OF loop])
  from fail c wal
  have first: "ext ev (TransferFrom sender (buk_wallet s) c) (w\<lparr>buk := s\<rparr>)
      = Inr (False, w\<lparr>buk := s, calls := calls w @ [TransferFrom sender (buk_wallet s) c]\<rparr>)"
    by (simp add: ext_def)
  from res loop first have "r = False \<and> buk w1 = s"
    by (auto simp: bookRoom_def bindE_Inr_iff ext_Inr split: if_splits)
  with bookRoom_loop_bookings [OF loop] res show ?thesis by auto
qed

theorem bookRoom_commission_failure_witness:
  "returned (bookRoom env_refuse 7 1 1 [100] [50] 10 20 demo_world) = Some False \<and>
   env_refuse (calls demo_world) (TransferFrom 7 (buk_wallet (buk demo_world))
      (\<Sum>b\<leftarrow>take 1 [50]. b * commission (buk demo_world) div 100)) = Returned False \<and>
   bookingIds (buk (world_after demo_world
      (bookRoom env_refuse 7 1 1 [100] [50] 10 20 demo_world))) = bookingIds (buk demo_world) + 1 \<and>
   status (BookingDetails (buk (world_after demo_world
      (bookRoom env_refuse 7 1 1 [100] [50] 10 20 demo_world))) 1) = booked"
proof -
  have ret: "returned (bookRoom env_refuse 7 1 1 [100] [50] 10 20 demo_world) = Some False"
    by (simp add: bookRoom_def demo_defs eval_defs cong: bindE_cong)
  have fail: "env_refuse (calls demo_world) (TransferFrom 7 (buk_wallet (buk demo_world))
      (\<Sum>b\<leftarrow>take 1 [50]. b * commission (buk demo_world) div 100)) = Returned False"
    by (simp add: env_refuse_def)
  have ids: "bookingIds (buk demo_world) = 0" by (simp add: demo_defs)
  from bookRoom_commission_failure [OF ret fail] ids ret fail show ?thesis by simp
qed

subsection \<open>The transfers issued on a payment failure\<close>

text \<open>
  C3: what \<^verbatim>\<open>bookRoom\<close> asks of the currency ledger when a transfer is refused. When the
  commission itself is refused (first scenario), one more transfer is issued: the
  commission from the protocol wallet to the caller. When the commission is collected and
  the payment to the treasury is refused (second scenario), two inverse transfers are
  issued: the commission from the protocol wallet and the total from the treasury.
\<close>

theorem bookRoom_inverse_transfers:
  "calls (world_after demo_world (bookRoom env_refuse 7 1 1 [100] [50] 10 20 demo_world))
     = [TransferFrom 7 900 2, TransferFrom 900 7 2] \<and>
   calls (world_after demo_world
      (bookRoom env_wallet_only 7 1 2 [100, 100] [100, 200] 10 20 demo_world))
     = [TransferFrom 7 900 15, TransferFrom 7 902 200,
        TransferFrom 900 7 15, TransferFrom 902 7 200]"
  by (simp add: bookRoom_def demo_defs eval_defs bookRoom_loop_numeral cong: bindE_cong)

subsection \<open>The size of a batch\<close>

text \<open>
  C4: \<^verbatim>\<open>bookRoom\<close> has no size check. A call for 11 rooms returns true and writes 11
  bookings, where \<^verbatim>\<open>checkout\<close> (like \<^verbatim>\<open>confirmRoom\<close>) refuses the same 11 bookings with
  "Exceeds max room booking limit".
\<close>

theorem bookRoom_eleven_rooms:
  "returned (bookRoom env_accept 7 1 11 [1, 1, 1, 1, 1, 1, 1, 1, 1, 1, 1]
      [0, 0, 0, 0, 0, 0, 0, 0, 0, 0, 0] 10000 20000 demo_world) = Some True \<and>
   bookingIds (buk demo_world) = 0 \<and>
   bookingIds (buk (run demo_eleven demo_world)) = 11 \<and>
   status (BookingDetails (buk (run demo_eleven demo_world)) 11) = booked \<and>
   checkout 1000 1 [1, 2, 3, 4, 5, 6, 7, 8, 9, 10, 11] (run demo_eleven demo_world)
     = Inl (Require ''Exceeds max room booking limit'')"
  by (simp add: demo_eleven_def op_defs demo_defs eval_defs bookRoom_loop_numeral
      cong: bindE_cong)

subsection \<open>Token ids and statuses\<close>

text \<open>
  C2, as stated, fails: \<^verbatim>\<open>cancelRoom\<close> sets the status to \<open>cancelled\<close> and leaves the
  token id as it is. A booking that was booked, confirmed and then cancelled by the admin
  has status \<open>cancelled\<close> and token id 1.
\<close>

theorem token_id_invariant_counterexample:
  "constructed demo_world \<and>
   status (BookingDetails (buk (run demo_cancel demo_world)) 1) = cancelled \<and>
   tokenID (BookingDetails (buk (run demo_cancel demo_world)) 1) = 1"
  by (simp add: constructed_def demo_cancel_def op_defs demo_defs eval_defs cong: bindE_cong)

text \<open>
  C2, amended: in every world reached from the constructor's by any sequence of calls, a
  booking whose status is \<open>confirmed\<close> or \<open>expired\<close> has a non-zero token id, equal to
  its booking id, and a booking whose status is \<open>booked\<close> (or that was never written) has
  token id 0. A booking becomes \<open>cancelled\<close> in one of two ways only: by
  \<^verbatim>\<open>bookingRefund\<close>, from \<open>booked\<close>, and then its token id is 0; or by \<^verbatim>\<open>cancelRoom\<close>
  called on it, from \<open>confirmed\<close>, and then it keeps its booking id as its token id. Once
  cancelled, its record never changes again, so a cancelled booking has token id 0 or its
  booking id according to the call that cancelled it.
\<close>

theorem token_id_invariant:
  assumes "constructed w"
  shows "(status (BookingDetails (buk (run ops w)) k) = confirmed \<or>
          status (BookingDetails (buk (run ops w)) k) = expired
            \<longrightarrow> tokenID (BookingDetails (buk (run ops w)) k) = k \<and> k \<noteq> 0) \<and>
         (status (BookingDetails (buk (run ops w)) k) = nil \<or>
          status (BookingDetails (buk (run ops w)) k) = booked
            \<longrightarrow> tokenID (BookingDetails (buk (run ops w)) k) = 0) \<and>
         (status (BookingDetails (buk (run ops w)) k) = cancelled
            \<longrightarrow> tokenID (BookingDetails (buk (run ops w)) k) = 0 \<or>
                tokenID (BookingDetails (buk (run ops w)) k) = k) \<and>
         (status (BookingDetails (buk (run ops w)) k) \<noteq> cancelled \<and>
          status (BookingDetails (buk (transact ev op (run ops w))) k) = cancelled
            \<longrightarrow> (case op of
                   BookingRefund sender sid ids ow \<Rightarrow>
                     status (BookingDetails (buk (run ops w)) k) = booked \<and>
                     tokenID (BookingDetails (buk (transact ev op (run ops w))) k) = 0
                 | CancelRoom sender sid j penalty refund charges \<Rightarrow>
                     j = k \<and> status (BookingDetails (buk (run ops w)) k) = confirmed \<and>
                     tokenID (BookingDetails (buk (transact ev op (run ops w))) k) = k \<and> k \<noteq> 0
                 | _ \<Rightarrow> False)) \<and>
         (status (BookingDetails (buk (run ops w)) k) = cancelled
            \<longrightarrow> BookingDetails (buk (transact ev op (run ops w))) k
                = BookingDetails (buk (run ops w)) k)"
proof -
  from assms have inv: "token_inv (buk (run ops w))"
    by (simp add: token_inv_constructed token_inv_run)
  then have ok: "booking_ok (bookingIds (buk (run ops w))) k (BookingDetails (buk (run ops w)) k)"
    by (simp add: token_inv_def)
  have A: "(status (BookingDetails (buk (run ops w)) k) = confirmed \<or>
          status (BookingDetails (buk (run ops w)) k) = expired
            \<longrightarrow> tokenID (BookingDetails (buk (run ops w)) k) = k \<and> k \<noteq> 0) \<and>
         (status (BookingDetails (buk (run ops w)) k) = nil \<or>
          status (BookingDetails (buk (run ops w)) k) = booked
            \<longrightarrow> tokenID (BookingDetails (buk (run ops w)) k) = 0) \<and>
         (status (BookingDetails (buk (run ops w)) k) = cancelled
            \<longrightarrow> tokenID (BookingDetails (buk (run ops w)) k) = 0 \<or>
                tokenID (BookingDetails (buk (run ops w)) k) = k)"
    using ok by (cases "k = 0") (auto simp: booking_ok_def)
  from A cancel_step [OF inv] cancelled_frozen [OF inv] show ?thesis by blast
qed

theorem token_id_invariant_witness:
  "constructed demo_world \<and>
   status (BookingDetails (buk (run (take 1 demo_cancel) demo_world)) 1) = booked \<and>
   tokenID (BookingDetails (buk (run (take 1 demo_cancel) demo_world)) 1) = 0 \<and>
   status (BookingDetails (buk (run (take 2 demo_cancel) demo_world)) 1) = confirmed \<and>
   tokenID (BookingDetails (buk (run (take 2 demo_cancel) demo_world)) 1) = 1 \<and>
   status (BookingDetails (buk (transact env_accept (CancelRoom 1000 1 1 1 2 3)
      (run (take 2 demo_cancel) demo_world))) 1) = cancelled \<and>
   tokenID (BookingDetails (buk (transact env_accept (CancelRoom 1000 1 1 1 2 3)
      (run (take 2 demo_cancel) demo_world))) 1) = 1 \<and>
   status (BookingDetails (buk (run (take 1 demo_refund) demo_world)) 1) = booked \<and>
   status (BookingDetails (buk (transact env_accept (BookingRefund 1000 1 [1] 7)
      (run (take 1 demo_refund) demo_world))) 1) = cancelled \<and>
   tokenID (BookingDetails (buk (transact env_accept (BookingRefund 1000 1 [1] 7)
      (run (take 1 demo_refund) demo_world))) 1) = 0 \<and>
   status (BookingDetails (buk (run demo_cancel demo_world)) 1) = cancelled \<and>
   BookingDetails (buk (transact env_accept (ConfirmRoom 7 1 [1] [''u''] True)
      (run demo_cancel demo_world))) 1 = BookingDetails (buk (run demo_cancel demo_world)) 1"
proof -
  have c: "constructed demo_world"
    by (simp add: constructed_def demo_defs)
  have s1: "status (BookingDetails (buk (run (take 1 demo_cancel) demo_world)) 1) = booked"
    by (simp add: demo_cancel_def op_defs demo_defs eval_defs cong: bindE_cong)
  have s2: "status (BookingDetails (buk (run (take 2 demo_cancel) demo_world)) 1) = confirmed"
    by (simp add: demo_cancel_def op_defs demo_defs eval_defs cong: bindE_cong)
  have s3: "status (BookingDetails (buk (transact env_accept (CancelRoom 1000 1 1 1 2 3)
      (run (take 2 demo_cancel) demo_world))) 1) = cancelled"
    by (simp add: demo_cancel_def op_defs demo_defs eval_defs cong: bindE_cong)
  have s4: "status (BookingDetails (buk (run (take 1 demo_refund) demo_world)) 1) = booked"
    by (simp add: demo_refund_def op_defs demo_defs eval_defs cong: bindE_cong)
  have s5: "status (BookingDetails (buk (transact env_accept (BookingRefund 1000 1 [1] 7)
      (run (take 1 demo_refund) demo_world))) 1) = cancelled"
    by (simp add: demo_refund_def op_defs demo_defs eval_defs cong: bindE_cong)
  have s6: "status (BookingDetails (buk (run demo_cancel demo_world)) 1) = cancelled"
    by (simp add: demo_cancel_def op_defs demo_defs eval_defs cong: bindE_cong)
  from token_id_invariant [OF c, where ops = "take 1 demo_cancel" and k = 1 and ev = env_accept
      and op = "SetCommission 1000 5"] s1
  have t1: "tokenID (BookingDetails (buk (run (take 1 demo_cancel) demo_world)) 1) = 0"
    by blast
  from token_id_invariant [OF c, where ops = "take 2 demo_cancel" and k = 1 and ev = env_accept
      and op = "CancelRoom 1000 1 1 1 2 3"] s2 s3
  have t2: "tokenID (BookingDetails (buk (run (take 2 demo_cancel) demo_world)) 1) = 1 \<and>
    tokenID (BookingDetails (buk (transact env_accept (CancelRoom 1000 1 1 1 2 3)
      (run (take 2 demo_cancel) demo_world))) 1) = 1"
    by simp
  from token_id_invariant [OF c, where ops = "take 1 demo_refund" and k = 1 and ev = env_accept
      and op = "BookingRefund 1000 1 [1] 7"] s4 s5
  have t3: "tokenID (BookingDetails (buk (transact env_accept (BookingRefund 1000 1 [1] 7)
      (run (take 1 demo_refund) demo_world))) 1) = 0"
    by simp
  from token_id_invariant [OF c, where ops = demo_cancel and k = 1 and ev = env_accept
      and op = "ConfirmRoom 7 1 [1] [''u''] True"] s6
  have t4: "BookingDetails (buk (transact env_accept (ConfirmRoom 7 1 [1] [''u''] True)
      (run demo_cancel demo_world))) 1 = BookingDetails (buk (run demo_cancel demo_world)) 1"
    by blast
  from c s1 s2 s3 s4 s5 s6 t1 t2 t3 t4 show ?thesis by blast
qed

subsection \<open>The utility ledger\<close>

text \<open>
  C9, as stated, fails: a caller who is neither the holder nor an operator approved by the
  holder is rejected by the public entry point before the hook runs, with the base
  contract's error and not with \<^verbatim>\<open>NonTransferable\<close>.
\<close>

theorem utility_never_transferable_counterexample:
  "8 \<noteq> (7::nat) \<and> \<not> su_approved (demo_utility 101) 7 8 \<and>
   SupplierUtilityContract_safeTransferFrom 8 7 9 1 1 (demo_utility 101)
     = Inl (Require ''ERC1155: caller is not token owner or approved'') \<and>
   SupplierUtilityContract_safeTransferFrom 8 7 9 1 1 (demo_utility 101)
     \<noteq> Inl (NonTransferable ''Token transfer not allowed.'') \<and>
   SupplierUtilityContract_safeBatchTransferFrom 8 7 9 [1] [1] (demo_utility 101)
     = Inl (Require ''ERC1155: caller is not token owner or approved'')"
  by (simp add: SupplierUtilityContract_safeTransferFrom_def
      SupplierUtilityContract_safeBatchTransferFrom_def demo_utility_def)

text \<open>
  C9, amended: on the utility ledger, after any sequence of calls from any state, every
  single transfer and every batch transfer is rejected, whatever the caller, the holder, the
  recipient, the token ids and the amounts: with \<^verbatim>\<open>NonTransferable\<close> when the caller is the
  holder or an operator the holder has approved, and with the base contract's "caller is not
  token owner or approved" otherwise. The two hooks themselves always answer
  \<^verbatim>\<open>NonTransferable\<close>, an attempted transfer leaves the ledger as it was, and no holder's
  balance ever goes down.
\<close>

theorem utility_never_transferable:
  "(fr = caller \<or> su_approved (utility_run ops U) fr caller
      \<longrightarrow> SupplierUtilityContract_safeTransferFrom caller fr to tid amount (utility_run ops U)
            = Inl (NonTransferable ''Token transfer not allowed.'') \<and>
          SupplierUtilityContract_safeBatchTransferFrom caller fr to tids amounts
            (utility_run ops U) = Inl (NonTransferable ''Token transfer not allowed.'')) \<and>
   (\<not> (fr = caller \<or> su_approved (utility_run ops U) fr caller)
      \<longrightarrow> SupplierUtilityContract_safeTransferFrom caller fr to tid amount (utility_run ops U)
            = Inl (Require ''ERC1155: caller is not token owner or approved'') \<and>
          SupplierUtilityContract_safeBatchTransferFrom caller fr to tids amounts
            (utility_run ops U)
            = Inl (Require ''ERC1155: caller is not token owner or approved'')) \<and>
   SupplierUtilityContract__safeTransferFrom fr to tid amount (utility_run ops U)
     = Inl (NonTransferable ''Token transfer not allowed.'') \<and>
   SupplierUtilityContract__safeBatchTransferFrom fr to tids amounts (utility_run ops U)
     = Inl (NonTransferable ''Token transfer not allowed.'') \<and>
   utility_transact (SafeTransferFrom caller fr to tid amount) (utility_run ops U)
     = utility_run ops U \<and>
   utility_transact (SafeBatchTransferFrom caller fr to tids amounts) (utility_run ops U)
     = utility_run ops U \<and>
   su_balances U tid holder \<le> su_balances (utility_run ops U) tid holder"
  by (simp add: SupplierUtilityContract_safeTransferFrom_def
      SupplierUtilityContract_safeBatchTransferFrom_def
      SupplierUtilityContract__safeTransferFrom_def
      SupplierUtilityContract__safeBatchTransferFrom_def utility_transact_def
      utility_run_balances)

theorem utility_never_transferable_witness:
  "su_approved (utility_run [Mint 101 7 1 1 ''u'', SetApprovalForAll 7 8 True]
      (demo_utility 101)) 7 8 \<and>
   su_balances (utility_run [Mint 101 7 1 1 ''u'', SetApprovalForAll 7 8 True]
      (demo_utility 101)) 1 7 = 1 \<and>
   SupplierUtilityContract_safeTransferFrom 7 7 9 1 1
     (utility_run [Mint 101 7 1 1 ''u'', SetApprovalForAll 7 8 True] (demo_utility 101))
     = Inl (NonTransferable ''Token transfer not allowed.'') \<and>
   SupplierUtilityContract_safeTransferFrom 8 7 9 1 1
     (utility_run [Mint 101 7 1 1 ''u'', SetApprovalForAll 7 8 True] (demo_utility 101))
     = Inl (NonTransferable ''Token transfer not allowed.'') \<and>
   \<not> (7 = (5::nat) \<or> su_approved (utility_run [Mint 101 7 1 1 ''u'', SetApprovalForAll 7 8 True]
      (demo_utility 101)) 7 5) \<and>
   SupplierUtilityContract_safeTransferFrom 5 7 9 1 1
     (utility_run [Mint 101 7 1 1 ''u'', SetApprovalForAll 7 8 True] (demo_utility 101))
     = Inl (Require ''ERC1155: caller is not token owner or approved'')"
proof -
  let ?U = "utility_run [Mint 101 7 1 1 ''u'', SetApprovalForAll 7 8 True] (demo_utility 101)"
  have a: "su_approved ?U 7 8" and n: "\<not> su_approved ?U 7 5"
    and b: "su_balances ?U 1 7 = 1"
    by (simp_all add: utility_transact_def SupplierUtilityContract_mint_def
        SupplierUtilityContract_setApprovalForAll_def erc1155_mint_def checked_add_def
        max_uint256_def demo_utility_def)
  from utility_never_transferable [where caller = 7 and fr = 7 and ops =
      "[Mint 101 7 1 1 ''u'', SetApprovalForAll 7 8 True]" and U = "demo_utility 101"
      and to = 9 and tid = 1 and amount = 1]
  have r1: "SupplierUtilityContract_safeTransferFrom 7 7 9 1 1 ?U
     = Inl (NonTransferable ''Token transfer not allowed.'')" by simp
  from utility_never_transferable [where caller = 8 and fr = 7 and ops =
      "[Mint 101 7 1 1 ''u'', SetApprovalForAll 7 8 True]" and U = "demo_utility 101"
      and to = 9 and tid = 1 and amount = 1] a
  have r2: "SupplierUtilityContract_safeTransferFrom 8 7 9 1 1 ?U
     = Inl (NonTransferable ''Token transfer not allowed.'')" by blast
  from utility_never_transferable [where caller = 5 and fr = 7 and ops =
      "[Mint 101 7 1 1 ''u'', SetApprovalForAll 7 8 True]" and U = "demo_utility 101"
      and to = 9 and tid = 1 and amount = 1] n
  have r3: "SupplierUtilityContract_safeTransferFrom 5 7 9 1 1 ?U
     = Inl (Require ''ERC1155: caller is not token owner or approved'')" by simp
  from a n b r1 r2 r3 show ?thesis by simp
qed

subsection \<open>The state machine of a booking\<close>

text \<open>
  The status of a booking moves only along the edges of the state machine (lemma
  \<open>status_edges\<close> above), and an operation called on a booking in the wrong status reverts.
\<close>

text \<open>
  C5: what the rejection says. \<^verbatim>\<open>cancelRoom\<close> on a booking that is \<open>booked\<close>, not
  \<open>confirmed\<close>, with a registered supplier, reverts with the message "Supplier not
  registered", the message of the check on the supplier just above it, and the same that
  an unregistered supplier gets; \<^verbatim>\<open>checkout\<close> on the same booking reverts with "Check the
  Booking status".
\<close>

theorem cancelRoom_wrong_state_message:
  "sup_status (Suppliers (buk (run (take 1 demo_cancel) demo_world)) 1) \<and>
   status (BookingDetails (buk (run (take 1 demo_cancel) demo_world)) 1) = booked \<and>
   cancelRoom env_accept 1000 1 1 1 2 3 (run (take 1 demo_cancel) demo_world)
     = Inl (Require ''Supplier not registered'') \<and>
   checkout 1000 1 [1] (run (take 1 demo_cancel) demo_world)
     = Inl (Require ''Check the Booking status'') \<and>
   \<not> sup_status (Suppliers (buk (run (take 1 demo_cancel) demo_world)) 3) \<and>
   cancelRoom env_accept 1000 3 1 1 2 3 (run (take 1 demo_cancel) demo_world)
     = Inl (Require ''Supplier not registered'')"
  by (simp add: demo_cancel_def op_defs demo_defs eval_defs zero_SupplierDetails_def
      cong: bindE_cong)

subsection \<open>Confirming a batch\<close>

text \<open>
  C6: \<^verbatim>\<open>confirmRoom\<close> with an active supplier. If a booking of the batch is not
  \<open>booked\<close> or not owned by the caller, or the ids and the URIs differ in number, or the
  batch has 11 items or more, the call reverts and the world is unchanged. Otherwise, when
  the supplier's token ledger is deployed, grants the orchestrator the factory role and can
  hold the new tokens, every booking of the batch becomes \<open>confirmed\<close> with token id
  equal to its booking id, the bookings outside the batch are untouched, and the caller's
  balance of each token rises by one for each occurrence of the id in the batch. A batch of
  11 valid bookings is rejected with "Exceeds max room booking limit".
\<close>

theorem confirmRoom_all_or_nothing:
  assumes active: "sup_status (Suppliers (buk w) sid)"
  shows "((\<exists>x\<in>set ids. status (BookingDetails (buk w) x) \<noteq> booked \<or>
                       owner (BookingDetails (buk w) x) \<noteq> sender) \<or>
          length ids \<noteq> length uris \<or> 11 \<le> length ids
          \<longrightarrow> isl (confirmRoom sender sid ids uris st w) \<and>
              transact ev (ConfirmRoom sender sid ids uris st) w = w) \<and>
         ((\<forall>x\<in>set ids. status (BookingDetails (buk w) x) = booked \<and>
                       owner (BookingDetails (buk w) x) = sender) \<and>
          length ids = length uris \<and> length ids < 11 \<and>
          ledgers w (supplier_contract (Suppliers (buk w) sid)) = Some L \<and>
          this w \<in> sc_factory L \<and> sender \<noteq> 0 \<and>
          (\<forall>x\<in>set ids. sc_balances L x sender + length ids \<le> max_uint256)
          \<longrightarrow> (\<exists>w1 L1. confirmRoom sender sid ids uris st w = Inr w1 \<and>
                 (\<forall>x\<in>set ids. status (BookingDetails (buk w1) x) = confirmed \<and>
                               tokenID (BookingDetails (buk w1) x) = x) \<and>
                 (\<forall>k. k \<notin> set ids \<longrightarrow> BookingDetails (buk w1) k = BookingDetails (buk w) k) \<and>
                 ledgers w1 (supplier_contract (Suppliers (buk w) sid)) = Some L1 \<and>
                 (\<forall>k. sc_balances L1 k sender = sc_balances L k sender + count_list ids k))) \<and>
         ((\<forall>x\<in>set ids. status (BookingDetails (buk w) x) = booked \<and>
                       owner (BookingDetails (buk w) x) = sender) \<and>
          length uris = length ids \<and> length ids = 11
          \<longrightarrow> confirmRoom sender sid ids uris st w
                = Inl (Require ''Exceeds max room booking limit''))"
proof (intro conjI impI)
  assume bad: "(\<exists>x\<in>set ids. status (BookingDetails (buk w) x) \<noteq> booked \<or>
                       owner (BookingDetails (buk w) x) \<noteq> sender) \<or>
          length ids \<noteq> length uris \<or> 11 \<le> length ids"
  show rej: "isl (confirmRoom sender sid ids uris st w)"
  proof (cases "confirmRoom_check (buk w) sender 0 ids")
    case (Inl e)
    with active show ?thesis by (simp add: confirmRoom_def)
  next
    case (Inr u)
    from confirmRoom_check_Inr [OF Inr] bad
    have "length ids \<noteq> length uris \<or> \<not> length ids < 11" by auto
    with active Inr show ?thesis by (auto simp: confirmRoom_def)
  qed
  then show "transact ev (ConfirmRoom sender sid ids uris st) w = w"
    by (simp add: transact_Inl)
next
  assume good: "(\<forall>x\<in>set ids. status (BookingDetails (buk w) x) = booked \<and>
                       owner (BookingDetails (buk w) x) = sender) \<and>
          length ids = length uris \<and> length ids < 11 \<and>
          ledgers w (supplier_contract (Suppliers (buk w) sid)) = Some L \<and>
          this w \<in> sc_factory L \<and> sender \<noteq> 0 \<and>
          (\<forall>x\<in>set ids. sc_balances L x sender + length ids \<le> max_uint256)"
  then have chk: "confirmRoom_check (buk w) sender 0 ids = Inr ()"
    by (intro confirmRoom_check_ok) auto
  from good have "\<exists>w1 L1. confirmRoom_loop (supplier_contract (Suppliers (buk w) sid)) uris st 0 ids w
        = Inr w1 \<and> ledgers w1 (supplier_contract (Suppliers (buk w) sid)) = Some L1 \<and>
      sc_factory L1 = sc_factory L \<and>
      (\<forall>k. sc_balances L1 k sender = sc_balances L k sender + count_list ids k) \<and>
      (\<forall>k. sc_transferable L1 k = (if k \<in> set ids then st else sc_transferable L k)) \<and>
      (\<forall>c. c \<noteq> supplier_contract (Suppliers (buk w) sid) \<longrightarrow> ledgers w1 c = ledgers w c)"
    by (intro confirmRoom_loop_ok) auto
  then obtain w1 L1 where
    loop: "confirmRoom_loop (supplier_contract (Suppliers (buk w) sid)) uris st 0 ids w = Inr w1"
    and l: "ledgers w1 (supplier_contract (Suppliers (buk w) sid)) = Some L1"
    and b: "\<forall>k. sc_balances L1 k sender = sc_balances L k sender + count_list ids k"
    by blast
  from active chk good loop have res: "confirmRoom sender sid ids uris st w = Inr w1"
    by (simp add: confirmRoom_def)
  note E = confirmRoom_buk(1) [OF res]
  have st: "\<forall>x\<in>set ids. status (BookingDetails (buk w1) x) = confirmed \<and>
                               tokenID (BookingDetails (buk w1) x) = x"
    by (simp add: E)
  have oth: "\<forall>k. k \<notin> set ids \<longrightarrow> BookingDetails (buk w1) k = BookingDetails (buk w) k"
    by (simp add: E)
  from res st oth l b
  show "\<exists>w1 L1. confirmRoom sender sid ids uris st w = Inr w1 \<and>
                 (\<forall>x\<in>set ids. status (BookingDetails (buk w1) x) = confirmed \<and>
                               tokenID (BookingDetails (buk w1) x) = x) \<and>
                 (\<forall>k. k \<notin> set ids \<longrightarrow> BookingDetails (buk w1) k = BookingDetails (buk w) k) \<and>
                 ledgers w1 (supplier_contract (Suppliers (buk w) sid)) = Some L1 \<and>
                 (\<forall>k. sc_balances L1 k sender = sc_balances L k sender + count_list ids k)"
    by (intro exI [of _ w1] exI [of _ L1]) simp
next
  assume eleven: "(\<forall>x\<in>set ids. status (BookingDetails (buk w) x) = booked \<and>
                       owner (BookingDetails (buk w) x) = sender) \<and>
          length uris = length ids \<and> length ids = 11"
  then have chk: "confirmRoom_check (buk w) sender 0 ids = Inr ()"
    by (intro confirmRoom_check_ok) auto
  with active eleven show "confirmRoom sender sid ids uris st w
                = Inl (Require ''Exceeds max room booking limit'')"
    by (simp add: confirmRoom_def)
qed

theorem confirmRoom_all_or_nothing_witness:
  "sup_status (Suppliers (buk demo_world) 1) \<and>
   status (BookingDetails (buk demo_world) 1) \<noteq> booked \<and>
   isl (confirmRoom 7 1 [1] [''a''] True demo_world) \<and>
   transact env_accept (ConfirmRoom 7 1 [1] [''a''] True) demo_world = demo_world \<and>
   status (BookingDetails (buk (run demo_two demo_world)) 1) = booked \<and>
   status (BookingDetails (buk (run demo_two demo_world)) 2) = booked \<and>
   status (BookingDetails (buk (transact env_accept (ConfirmRoom 7 1 [1, 2] [''a'', ''b''] True)
      (run demo_two demo_world))) 1) = confirmed \<and>
   tokenID (BookingDetails (buk (transact env_accept (ConfirmRoom 7 1 [1, 2] [''a'', ''b''] True)
      (run demo_two demo_world))) 1) = 1 \<and>
   status (BookingDetails (buk (transact env_accept (ConfirmRoom 7 1 [1, 2] [''a'', ''b''] True)
      (run demo_two demo_world))) 2) = confirmed \<and>
   tokenID (BookingDetails (buk (transact env_accept (ConfirmRoom 7 1 [1, 2] [''a'', ''b''] True)
      (run demo_two demo_world))) 2) = 2 \<and>
   map_option (\<lambda>L. (sc_balances L 1 7, sc_balances L 2 7))
     (ledgers (transact env_accept (ConfirmRoom 7 1 [1, 2] [''a'', ''b''] True)
        (run demo_two demo_world)) 101) = Some (1, 1) \<and>
   confirmRoom 7 1 [1, 2, 3, 4, 5, 6, 7, 8, 9, 10, 11]
      [''a'', ''b'', ''c'', ''d'', ''e'', ''f'', ''g'', ''h'', ''i'', ''j'', ''k''] True
      (run demo_eleven demo_world) = Inl (Require ''Exceeds max room booking limit'')"
proof -
  have a0: "sup_status (Suppliers (buk demo_world) 1)" by (simp add: demo_defs)
  have n0: "status (BookingDetails (buk demo_world) 1) \<noteq> booked"
    by (simp add: demo_defs zero_Booking_def)
  from confirmRoom_all_or_nothing [OF a0, where ids = "[1]" and sender = 7 and uris = "[''a'']"
      and st = True and ev = env_accept] n0
  have r1: "isl (confirmRoom 7 1 [1] [''a''] True demo_world) \<and>
     transact env_accept (ConfirmRoom 7 1 [1] [''a''] True) demo_world = demo_world"
    by simp
  note F = demo_two_facts
  from confirmRoom_all_or_nothing [OF F(1), where ids = "[1, 2]" and sender = 7
      and uris = "[''a'', ''b'']" and L = "demo_ledger 201" and st = True]
    F(2-5)
  obtain w1 L1 where
    res: "confirmRoom 7 1 [1, 2] [''a'', ''b''] True (run demo_two demo_world) = Inr w1"
    and st: "\<forall>x\<in>set [1, 2]. status (BookingDetails (buk w1) x) = confirmed \<and>
                               tokenID (BookingDetails (buk w1) x) = x"
    and l: "ledgers w1 (supplier_contract (Suppliers (buk (run demo_two demo_world)) 1)) = Some L1"
    and b: "\<forall>k. sc_balances L1 k 7 = sc_balances (demo_ledger 201) k 7 + count_list [1, 2] k"
    by (auto simp: )
  have sc: "supplier_contract (Suppliers (buk (run demo_two demo_world)) 1) = 101"
    by (simp add: demo_two_def op_defs demo_defs eval_defs bookRoom_loop_numeral
      cong: bindE_cong)
  have tr: "transact env_accept (ConfirmRoom 7 1 [1, 2] [''a'', ''b''] True)
      (run demo_two demo_world) = w1"
    using res by (simp add: transact_def)
  have r2: "status (BookingDetails (buk w1) 1) = confirmed \<and>
     tokenID (BookingDetails (buk w1) 1) = 1 \<and>
     status (BookingDetails (buk w1) 2) = confirmed \<and>
     tokenID (BookingDetails (buk w1) 2) = 2"
    using st by simp
  have r3: "map_option (\<lambda>L. (sc_balances L 1 7, sc_balances L 2 7)) (ledgers w1 101) = Some (1, 1)"
    using l b sc by (simp add: demo_ledger_def)
  note G = demo_eleven_facts
  from confirmRoom_all_or_nothing [OF G(1), where ids = "[1, 2, 3, 4, 5, 6, 7, 8, 9, 10, 11]"
      and sender = 7 and st = True
      and uris = "[''a'', ''b'', ''c'', ''d'', ''e'', ''f'', ''g'', ''h'', ''i'', ''j'', ''k'']"] G(2)
  have r4: "confirmRoom 7 1 [1, 2, 3, 4, 5, 6, 7, 8, 9, 10, 11]
      [''a'', ''b'', ''c'', ''d'', ''e'', ''f'', ''g'', ''h'', ''i'', ''j'', ''k''] True
      (run demo_eleven demo_world) = Inl (Require ''Exceeds max room booking limit'')"
    by simp
  from F(2) have b12: "status (BookingDetails (buk (run demo_two demo_world)) 1) = booked \<and>
   status (BookingDetails (buk (run demo_two demo_world)) 2) = booked" by simp
  from a0 n0 r1 b12 r2 r3 r4 show ?thesis unfolding tr by blast
qed

subsection \<open>The transfer lock\<close>

text \<open>
  C8: for a booking with a minted token (token id above 0), check-in time \<open>T\<close> and lock
  duration \<open>L\<close> stored for its supplier and id, \<^verbatim>\<open>toggleNFTStatus\<close> called by an admin or
  by the booking's owner sets the transferability flag on the ledger of the booking's
  supplier (deployed, and granting the orchestrator the factory role) when the current time
  is below \<open>T - L\<close>, and reverts, leaving the world and so the flag unchanged, when the
  current time is \<open>T - L\<close> or later. The subtraction is over the integers: a lock longer
  than the check-in time makes every call revert.
\<close>

theorem toggleNFTStatus_lock_boundary:
  assumes minted: "0 < tokenID (BookingDetails (buk w) k)"
    and access: "sender \<in> admins (buk w) \<or> sender = owner (BookingDetails (buk w) k)"
  shows "(int now < int (checkin (BookingDetails (buk w) k))
             - int (TimeLocks (buk w) (supplierId (BookingDetails (buk w) k)) k) \<and>
          ledgers w (supplier_contract
            (Suppliers (buk w) (supplierId (BookingDetails (buk w) k)))) = Some L \<and>
          this w \<in> sc_factory L
          \<longrightarrow> toggleNFTStatus sender now k st w =
                Inr (w\<lparr>ledgers := (ledgers w)
                  (supplier_contract (Suppliers (buk w) (supplierId (BookingDetails (buk w) k)))
                     \<mapsto> L\<lparr>sc_transferable := (sc_transferable L)(k := st)\<rparr>)\<rparr>)) \<and>
         (int (checkin (BookingDetails (buk w) k))
             - int (TimeLocks (buk w) (supplierId (BookingDetails (buk w) k)) k) \<le> int now
          \<longrightarrow> isl (toggleNFTStatus sender now k st w) \<and>
              transact ev (ToggleNFTStatus sender now k st) w = w)"
proof (intro conjI impI)
  assume early: "int now < int (checkin (BookingDetails (buk w) k))
             - int (TimeLocks (buk w) (supplierId (BookingDetails (buk w) k)) k) \<and>
          ledgers w (supplier_contract
            (Suppliers (buk w) (supplierId (BookingDetails (buk w) k)))) = Some L \<and>
          this w \<in> sc_factory L"
  then have "TimeLocks (buk w) (supplierId (BookingDetails (buk w) k)) k
               \<le> checkin (BookingDetails (buk w) k)"
    and "now < checkin (BookingDetails (buk w) k)
               - TimeLocks (buk w) (supplierId (BookingDetails (buk w) k)) k"
    by linarith+
  with assms early show "toggleNFTStatus sender now k st w =
                Inr (w\<lparr>ledgers := (ledgers w)
                  (supplier_contract (Suppliers (buk w) (supplierId (BookingDetails (buk w) k)))
                     \<mapsto> L\<lparr>sc_transferable := (sc_transferable L)(k := st)\<rparr>)\<rparr>)"
    by (auto simp: toggleNFTStatus_def Let_def checked_sub_def call_toggleNFTStatus_def
        SupplierContract_toggleNFTStatus_def)
next
  assume late: "int (checkin (BookingDetails (buk w) k))
             - int (TimeLocks (buk w) (supplierId (BookingDetails (buk w) k)) k) \<le> int now"
  show "isl (toggleNFTStatus sender now k st w)"
  proof (cases "TimeLocks (buk w) (supplierId (BookingDetails (buk w) k)) k
               \<le> checkin (BookingDetails (buk w) k)")
    case True
    with late have "\<not> now < checkin (BookingDetails (buk w) k)
               - TimeLocks (buk w) (supplierId (BookingDetails (buk w) k)) k"
      by linarith
    with True show ?thesis
      by (simp add: toggleNFTStatus_def Let_def checked_sub_def)
  next
    case False
    then show ?thesis
      by (simp add: toggleNFTStatus_def Let_def checked_sub_def)
  qed
  then show "transact ev (ToggleNFTStatus sender now k st) w = w"
    by (simp add: transact_Inl)
qed

theorem toggleNFTStatus_lock_boundary_witness:
  "0 < tokenID (BookingDetails (buk (run demo_locked demo_world)) 1) \<and>
   7 = owner (BookingDetails (buk (run demo_locked demo_world)) 1) \<and>
   int (checkin (BookingDetails (buk (run demo_locked demo_world)) 1))
     - int (TimeLocks (buk (run demo_locked demo_world)) 1 1) = 6400 \<and>
   map_option (\<lambda>L. sc_transferable L 1)
     (ledgers (transact env_accept (ToggleNFTStatus 7 6399 1 True) (run demo_locked demo_world))
        101) = Some True \<and>
   isl (toggleNFTStatus 7 6400 1 True (run demo_locked demo_world)) \<and>
   transact env_accept (ToggleNFTStatus 7 6400 1 True) (run demo_locked demo_world)
     = run demo_locked demo_world"
proof -
  note F = demo_locked_facts
  obtain L where L: "ledgers (run demo_locked demo_world) 101 = Some L"
    and fac: "sc_factory L = {1001}"
    using F(8) by (auto simp: map_option_case split: option.splits)
  have minted: "0 < tokenID (BookingDetails (buk (run demo_locked demo_world)) 1)"
    using F by simp
  have access: "7 \<in> admins (buk (run demo_locked demo_world)) \<or>
      7 = owner (BookingDetails (buk (run demo_locked demo_world)) 1)"
    using F by simp
  have ledger: "ledgers (run demo_locked demo_world) (supplier_contract
      (Suppliers (buk (run demo_locked demo_world))
         (supplierId (BookingDetails (buk (run demo_locked demo_world)) 1)))) = Some L"
    using F L by simp
  have role: "this (run demo_locked demo_world) \<in> sc_factory L"
    using F fac by simp
  note T = toggleNFTStatus_lock_boundary [OF minted access, where L = L]
  from T [where now = 6399 and st = True and ev = env_accept] ledger role have ok: "toggleNFTStatus 7 6399 1 True (run demo_locked demo_world) =
     Inr ((run demo_locked demo_world)\<lparr>ledgers := (ledgers (run demo_locked demo_world))
        (101 \<mapsto> L\<lparr>sc_transferable := (sc_transferable L)(1 := True)\<rparr>)\<rparr>)"
    using F by simp
  from T [where now = 6400 and st = True and ev = env_accept]
  have late: "isl (toggleNFTStatus 7 6400 1 True (run demo_locked demo_world)) \<and>
     transact env_accept (ToggleNFTStatus 7 6400 1 True) (run demo_locked demo_world)
       = run demo_locked demo_world"
    using F by simp
  from ok late F show ?thesis by (simp add: transact_def)
qed

subsection \<open>The supplier argument\<close>

lemma supplier_argument_proceeds:
  assumes active: "sup_status (Suppliers (buk w) sid)"
    and other: "supplierId (BookingDetails (buk w) k) \<noteq> sid"
    and ledger: "ledgers w (supplier_contract (Suppliers (buk w) sid)) = Some L"
    and role: "this w \<in> sc_factory L"
    and own: "owner (BookingDetails (buk w) k) \<noteq> 0"
  shows
    "(status (BookingDetails (buk w) k) = booked \<and>
      sc_balances L k (owner (BookingDetails (buk w) k)) < max_uint256
      \<longrightarrow> (\<exists>w1 L1. confirmRoom (owner (BookingDetails (buk w) k)) sid [k] [u] st w = Inr w1 \<and>
             status (BookingDetails (buk w1) k) = confirmed \<and>
             tokenID (BookingDetails (buk w1) k) = k \<and>
             supplierId (BookingDetails (buk w1) k) = supplierId (BookingDetails (buk w) k) \<and>
             ledgers w1 (supplier_contract (Suppliers (buk w) sid)) = Some L1 \<and>
             sc_balances L1 k (owner (BookingDetails (buk w) k))
               = sc_balances L k (owner (BookingDetails (buk w) k)) + 1 \<and>
             (\<forall>c. c \<noteq> supplier_contract (Suppliers (buk w) sid)
                  \<longrightarrow> ledgers w1 c = ledgers w c))) \<and>
     (status (BookingDetails (buk w) k) = confirmed \<and> admin \<in> admins (buk w) \<and>
      1 \<le> sc_balances L k (owner (BookingDetails (buk w) k)) \<and>
      utilities w (sc_utility_contract L) = Some U \<and>
      supplier_contract (Suppliers (buk w) sid) \<in> su_supplier_role U \<and>
      su_balances U k (owner (BookingDetails (buk w) k)) < max_uint256
      \<longrightarrow> (\<exists>w1 L1. checkout admin sid [k] w = Inr w1 \<and>
             status (BookingDetails (buk w1) k) = expired \<and>
             ledgers w1 (supplier_contract (Suppliers (buk w) sid)) = Some L1 \<and>
             sc_balances L1 k (owner (BookingDetails (buk w) k))
               = sc_balances L k (owner (BookingDetails (buk w) k)) - 1 \<and>
             (\<forall>c. c \<noteq> supplier_contract (Suppliers (buk w) sid)
                  \<longrightarrow> ledgers w1 c = ledgers w c))) \<and>
     (status (BookingDetails (buk w) k) = confirmed \<and> admin \<in> admins (buk w) \<and>
      1 \<le> sc_balances L k (owner (BookingDetails (buk w) k)) \<and>
      (\<forall>log c. ev log c \<noteq> Reverted)
      \<longrightarrow> (\<exists>w1 L1. cancelRoom ev admin sid k penalty refund charges w = Inr w1 \<and>
             status (BookingDetails (buk w1) k) = cancelled \<and>
             calls w1 = calls w @
               [CancelUSDCRefund penalty
                  (supplier_owner (Suppliers (buk w) (supplierId (BookingDetails (buk w) k)))),
                CancelUSDCRefund refund (owner (BookingDetails (buk w) k)),
                CancelUSDCRefund charges (buk_wallet (buk w))] \<and>
             ledgers w1 (supplier_contract (Suppliers (buk w) sid)) = Some L1 \<and>
             sc_balances L1 k (owner (BookingDetails (buk w) k))
               = sc_balances L k (owner (BookingDetails (buk w) k)) - 1 \<and>
             (\<forall>c. c \<noteq> supplier_contract (Suppliers (buk w) sid)
                  \<longrightarrow> ledgers w1 c = ledgers w c)))"
proof (intro conjI impI)
  assume h: "status (BookingDetails (buk w) k) = booked \<and>
      sc_balances L k (owner (BookingDetails (buk w) k)) < max_uint256"
  have "\<exists>w1 L1. confirmRoom (owner (BookingDetails (buk w) k)) sid [k] [u] st w = Inr w1 \<and>
           ledgers w1 (supplier_contract (Suppliers (buk w) sid)) = Some L1 \<and>
           (\<forall>j. sc_balances L1 j (owner (BookingDetails (buk w) k))
                 = sc_balances L j (owner (BookingDetails (buk w) k)) + count_list [k] j) \<and>
           (\<forall>c. c \<noteq> supplier_contract (Suppliers (buk w) sid) \<longrightarrow> ledgers w1 c = ledgers w c)"
    using active ledger role own h by (intro confirmRoom_ok) auto
  then obtain w1 L1 where
    res: "confirmRoom (owner (BookingDetails (buk w) k)) sid [k] [u] st w = Inr w1"
    and l: "ledgers w1 (supplier_contract (Suppliers (buk w) sid)) = Some L1"
    and b: "\<forall>j. sc_balances L1 j (owner (BookingDetails (buk w) k))
                 = sc_balances L j (owner (BookingDetails (buk w) k)) + count_list [k] j"
    and o: "\<forall>c. c \<noteq> supplier_contract (Suppliers (buk w) sid) \<longrightarrow> ledgers w1 c = ledgers w c"
    by blast
  note E = confirmRoom_buk(1) [OF res]
  from b have b1: "sc_balances L1 k (owner (BookingDetails (buk w) k))
               = sc_balances L k (owner (BookingDetails (buk w) k)) + 1" by simp
  from res l b1 o
  show "\<exists>w1 L1. confirmRoom (owner (BookingDetails (buk w) k)) sid [k] [u] st w = Inr w1 \<and>
             status (BookingDetails (buk w1) k) = confirmed \<and>
             tokenID (BookingDetails (buk w1) k) = k \<and>
             supplierId (BookingDetails (buk w1) k) = supplierId (BookingDetails (buk w) k) \<and>
             ledgers w1 (supplier_contract (Suppliers (buk w) sid)) = Some L1 \<and>
             sc_balances L1 k (owner (BookingDetails (buk w) k))
               = sc_balances L k (owner (BookingDetails (buk w) k)) + 1 \<and>
             (\<forall>c. c \<noteq> supplier_contract (Suppliers (buk w) sid)
                  \<longrightarrow> ledgers w1 c = ledgers w c)"
    by (intro exI [of _ w1] exI [of _ L1]) (simp add: E)
next
  assume h: "status (BookingDetails (buk w) k) = confirmed \<and> admin \<in> admins (buk w) \<and>
      1 \<le> sc_balances L k (owner (BookingDetails (buk w) k)) \<and>
      utilities w (sc_utility_contract L) = Some U \<and>
      supplier_contract (Suppliers (buk w) sid) \<in> su_supplier_role U \<and>
      su_balances U k (owner (BookingDetails (buk w) k)) < max_uint256"
  have "\<exists>w1 L1. checkout admin sid [k] w = Inr w1 \<and>
           ledgers w1 (supplier_contract (Suppliers (buk w) sid)) = Some L1 \<and>
           sc_balances L1 k (owner (BookingDetails (buk w) k))
             = sc_balances L k (owner (BookingDetails (buk w) k)) - 1 \<and>
           (\<forall>c. c \<noteq> supplier_contract (Suppliers (buk w) sid) \<longrightarrow> ledgers w1 c = ledgers w c)"
    using active ledger role own h by (intro checkout_single_ok [where U = U]) auto
  then obtain w1 L1 where
    res: "checkout admin sid [k] w = Inr w1"
    and rest: "ledgers w1 (supplier_contract (Suppliers (buk w) sid)) = Some L1 \<and>
           sc_balances L1 k (owner (BookingDetails (buk w) k))
             = sc_balances L k (owner (BookingDetails (buk w) k)) - 1 \<and>
           (\<forall>c. c \<noteq> supplier_contract (Suppliers (buk w) sid) \<longrightarrow> ledgers w1 c = ledgers w c)"
    by blast
  note E = checkout_buk(1) [OF res]
  from res rest
  show "\<exists>w1 L1. checkout admin sid [k] w = Inr w1 \<and>
             status (BookingDetails (buk w1) k) = expired \<and>
             ledgers w1 (supplier_contract (Suppliers (buk w) sid)) = Some L1 \<and>
             sc_balances L1 k (owner (BookingDetails (buk w) k))
               = sc_balances L k (owner (BookingDetails (buk w) k)) - 1 \<and>
             (\<forall>c. c \<noteq> supplier_contract (Suppliers (buk w) sid)
                  \<longrightarrow> ledgers w1 c = ledgers w c)"
    by (intro exI [of _ w1] exI [of _ L1]) (simp add: E)
next
  assume h: "status (BookingDetails (buk w) k) = confirmed \<and> admin \<in> admins (buk w) \<and>
      1 \<le> sc_balances L k (owner (BookingDetails (buk w) k)) \<and>
      (\<forall>log c. ev log c \<noteq> Reverted)"
  have "\<exists>w1 L1. cancelRoom ev admin sid k penalty refund charges w = Inr w1 \<and>
           calls w1 = calls w @
             [CancelUSDCRefund penalty
                (supplier_owner (Suppliers (buk w) (supplierId (BookingDetails (buk w) k)))),
              CancelUSDCRefund refund (owner (BookingDetails (buk w) k)),
              CancelUSDCRefund charges (buk_wallet (buk w))] \<and>
           ledgers w1 (supplier_contract (Suppliers (buk w) sid)) = Some L1 \<and>
           sc_balances L1 k (owner (BookingDetails (buk w) k))
             = sc_balances L k (owner (BookingDetails (buk w) k)) - 1 \<and>
           (\<forall>c. c \<noteq> supplier_contract (Suppliers (buk w) sid) \<longrightarrow> ledgers w1 c = ledgers w c)"
    using active ledger role own h by (intro cancelRoom_ok) auto
  then obtain w1 L1 where
    res: "cancelRoom ev admin sid k penalty refund charges w = Inr w1"
    and rest: "calls w1 = calls w @
             [CancelUSDCRefund penalty
                (supplier_owner (Suppliers (buk w) (supplierId (BookingDetails (buk w) k)))),
              CancelUSDCRefund refund (owner (BookingDetails (buk w) k)),
              CancelUSDCRefund charges (buk_wallet (buk w))] \<and>
           ledgers w1 (supplier_contract (Suppliers (buk w) sid)) = Some L1 \<and>
           sc_balances L1 k (owner (BookingDetails (buk w) k))
             = sc_balances L k (owner (BookingDetails (buk w) k)) - 1 \<and>
           (\<forall>c. c \<noteq> supplier_contract (Suppliers (buk w) sid) \<longrightarrow> ledgers w1 c = ledgers w c)"
    by blast
  note E = cancelRoom_buk(1) [OF res]
  from res rest
  show "\<exists>w1 L1. cancelRoom ev admin sid k penalty refund charges w = Inr w1 \<and>
             status (BookingDetails (buk w1) k) = cancelled \<and>
             calls w1 = calls w @
               [CancelUSDCRefund penalty
                  (supplier_owner (Suppliers (buk w) (supplierId (BookingDetails (buk w) k)))),
                CancelUSDCRefund refund (owner (BookingDetails (buk w) k)),
                CancelUSDCRefund charges (buk_wallet (buk w))] \<and>
             ledgers w1 (supplier_contract (Suppliers (buk w) sid)) = Some L1 \<and>
             sc_balances L1 k (owner (BookingDetails (buk w) k))
               = sc_balances L k (owner (BookingDetails (buk w) k)) - 1 \<and>
             (\<forall>c. c \<noteq> supplier_contract (Suppliers (buk w) sid)
                  \<longrightarrow> ledgers w1 c = ledgers w c)"
    by (intro exI [of _ w1] exI [of _ L1]) (simp add: E)
qed

text \<open>
  C10, as stated, fails: with a supplier other than the stored one, \<^verbatim>\<open>checkout\<close> and
  \<^verbatim>\<open>cancelRoom\<close> do not always proceed. A booking made and confirmed with supplier 1
  has its token on the ledger of supplier 1; \<^verbatim>\<open>checkout\<close> and \<^verbatim>\<open>cancelRoom\<close> called with
  the active supplier 2 try to burn on the ledger of supplier 2, where the owner holds
  nothing, and revert: the booking stays \<open>confirmed\<close> and the world is unchanged.
\<close>

theorem supplierId_argument_unchecked_counterexample:
  "sup_status (Suppliers (buk (run (take 2 demo_cancel) demo_world)) 2) \<and>
   supplierId (BookingDetails (buk (run (take 2 demo_cancel) demo_world)) 1) = 1 \<and>
   status (BookingDetails (buk (run (take 2 demo_cancel) demo_world)) 1) = confirmed \<and>
   checkout 1000 2 [1] (run (take 2 demo_cancel) demo_world)
     = Inl (Require ''ERC1155: burn amount exceeds balance'') \<and>
   cancelRoom env_accept 1000 2 1 1 2 3 (run (take 2 demo_cancel) demo_world)
     = Inl (Require ''ERC1155: burn amount exceeds balance'') \<and>
   transact env_accept (Checkout 1000 2 [1]) (run (take 2 demo_cancel) demo_world)
     = run (take 2 demo_cancel) demo_world \<and>
   transact env_accept (CancelRoom 1000 2 1 1 2 3) (run (take 2 demo_cancel) demo_world)
     = run (take 2 demo_cancel) demo_world"
proof -
  have 1: "sup_status (Suppliers (buk (run (take 2 demo_cancel) demo_world)) 2)"
    "supplierId (BookingDetails (buk (run (take 2 demo_cancel) demo_world)) 1) = 1"
    "status (BookingDetails (buk (run (take 2 demo_cancel) demo_world)) 1) = confirmed"
    by (simp_all add: demo_cancel_def op_defs demo_defs eval_defs cong: bindE_cong)
  have 2: "checkout 1000 2 [1] (run (take 2 demo_cancel) demo_world)
     = Inl (Require ''ERC1155: burn amount exceeds balance'')"
    by (simp add: demo_cancel_def op_defs demo_defs eval_defs cong: bindE_cong)
  have 3: "cancelRoom env_accept 1000 2 1 1 2 3 (run (take 2 demo_cancel) demo_world)
     = Inl (Require ''ERC1155: burn amount exceeds balance'')"
    by (simp add: demo_cancel_def op_defs demo_defs eval_defs cong: bindE_cong)
  from 2 have 4: "transact env_accept (Checkout 1000 2 [1]) (run (take 2 demo_cancel) demo_world)
     = run (take 2 demo_cancel) demo_world"
    by (simp add: transact_def)
  from 3 have 5: "transact env_accept (CancelRoom 1000 2 1 1 2 3)
     (run (take 2 demo_cancel) demo_world) = run (take 2 demo_cancel) demo_world"
    by (simp add: transact_def)
  from 1 2 3 4 5 show ?thesis by blast
qed

text \<open>
  C10, amended: \<^verbatim>\<open>confirmRoom\<close>, \<^verbatim>\<open>checkout\<close> and \<^verbatim>\<open>cancelRoom\<close> do not compare their
  supplier argument with the supplier stored in the booking. For an active supplier
  \<open>sid\<close> that differs from the stored one, whose token ledger is deployed and grants the
  orchestrator the factory role: \<^verbatim>\<open>confirmRoom\<close> confirms the booking and mints on the
  ledger of \<open>sid\<close>; \<^verbatim>\<open>checkout\<close> and \<^verbatim>\<open>cancelRoom\<close> burn on the ledger of \<open>sid\<close>, so
  they set the booking to \<open>expired\<close> and \<open>cancelled\<close> when the booking's owner holds the
  token on that ledger, and revert, changing nothing, when the owner holds none there;
  every other ledger is left as it was; and \<^verbatim>\<open>cancelRoom\<close>, when it goes through, sends
  the penalty to the owner of the stored supplier, not to the owner of \<open>sid\<close>.
\<close>

theorem supplierId_argument_unchecked:
  assumes active: "sup_status (Suppliers (buk w) sid)"
    and other: "supplierId (BookingDetails (buk w) k) \<noteq> sid"
    and ledger: "ledgers w (supplier_contract (Suppliers (buk w) sid)) = Some L"
    and role: "this w \<in> sc_factory L"
    and own: "owner (BookingDetails (buk w) k) \<noteq> 0"
  shows
    "((status (BookingDetails (buk w) k) = booked \<and>
      sc_balances L k (owner (BookingDetails (buk w) k)) < max_uint256
      \<longrightarrow> (\<exists>w1 L1. confirmRoom (owner (BookingDetails (buk w) k)) sid [k] [u] st w = Inr w1 \<and>
             status (BookingDetails (buk w1) k) = confirmed \<and>
             tokenID (BookingDetails (buk w1) k) = k \<and>
             supplierId (BookingDetails (buk w1) k) = supplierId (BookingDetails (buk w) k) \<and>
             ledgers w1 (supplier_contract (Suppliers (buk w) sid)) = Some L1 \<and>
             sc_balances L1 k (owner (BookingDetails (buk w) k))
               = sc_balances L k (owner (BookingDetails (buk w) k)) + 1 \<and>
             (\<forall>c. c \<noteq> supplier_contract (Suppliers (buk w) sid)
                  \<longrightarrow> ledgers w1 c = ledgers w c))) \<and>
     (status (BookingDetails (buk w) k) = confirmed \<and> admin \<in> admins (buk w) \<and>
      1 \<le> sc_balances L k (owner (BookingDetails (buk w) k)) \<and>
      utilities w (sc_utility_contract L) = Some U \<and>
      supplier_contract (Suppliers (buk w) sid) \<in> su_supplier_role U \<and>
      su_balances U k (owner (BookingDetails (buk w) k)) < max_uint256
      \<longrightarrow> (\<exists>w1 L1. checkout admin sid [k] w = Inr w1 \<and>
             status (BookingDetails (buk w1) k) = expired \<and>
             ledgers w1 (supplier_contract (Suppliers (buk w) sid)) = Some L1 \<and>
             sc_balances L1 k (owner (BookingDetails (buk w) k))
               = sc_balances L k (owner (BookingDetails (buk w) k)) - 1 \<and>
             (\<forall>c. c \<noteq> supplier_contract (Suppliers (buk w) sid)
                  \<longrightarrow> ledgers w1 c = ledgers w c))) \<and>
     (status (BookingDetails (buk w) k) = confirmed \<and> admin \<in> admins (buk w) \<and>
      1 \<le> sc_balances L k (owner (BookingDetails (buk w) k)) \<and>
      (\<forall>log c. ev log c \<noteq> Reverted)
      \<longrightarrow> (\<exists>w1 L1. cancelRoom ev admin sid k penalty refund charges w = Inr w1 \<and>
             status (BookingDetails (buk w1) k) = cancelled \<and>
             calls w1 = calls w @
               [CancelUSDCRefund penalty
                  (supplier_owner (Suppliers (buk w) (supplierId (BookingDetails (buk w) k)))),
                CancelUSDCRefund refund (owner (BookingDetails (buk w) k)),
                CancelUSDCRefund charges (buk_wallet (buk w))] \<and>
             ledgers w1 (supplier_contract (Suppliers (buk w) sid)) = Some L1 \<and>
             sc_balances L1 k (owner (BookingDetails (buk w) k))
               = sc_balances L k (owner (BookingDetails (buk w) k)) - 1 \<and>
             (\<forall>c. c \<noteq> supplier_contract (Suppliers (buk w) sid)
                  \<longrightarrow> ledgers w1 c = ledgers w c)))) \<and>
     (sc_balances L k (owner (BookingDetails (buk w) k)) = 0
      \<longrightarrow> isl (checkout admin sid [k] w) \<and>
          transact ev (Checkout admin sid [k]) w = w \<and>
          isl (cancelRoom ev admin sid k penalty refund charges w) \<and>
          transact ev (CancelRoom admin sid k penalty refund charges) w = w)"
proof (rule conjI)
  show "(status (BookingDetails (buk w) k) = booked \<and>
      sc_balances L k (owner (BookingDetails (buk w) k)) < max_uint256
      \<longrightarrow> (\<exists>w1 L1. confirmRoom (owner (BookingDetails (buk w) k)) sid [k] [u] st w = Inr w1 \<and>
             status (BookingDetails (buk w1) k) = confirmed \<and>
             tokenID (BookingDetails (buk w1) k) = k \<and>
             supplierId (BookingDetails (buk w1) k) = supplierId (BookingDetails (buk w) k) \<and>
             ledgers w1 (supplier_contract (Suppliers (buk w) sid)) = Some L1 \<and>
             sc_balances L1 k (owner (BookingDetails (buk w) k))
               = sc_balances L k (owner (BookingDetails (buk w) k)) + 1 \<and>
             (\<forall>c. c \<noteq> supplier_contract (Suppliers (buk w) sid)
                  \<longrightarrow> ledgers w1 c = ledgers w c))) \<and>
     (status (BookingDetails (buk w) k) = confirmed \<and> admin \<in> admins (buk w) \<and>
      1 \<le> sc_balances L k (owner (BookingDetails (buk w) k)) \<and>
      utilities w (sc_utility_contract L) = Some U \<and>
      supplier_contract (Suppliers (buk w) sid) \<in> su_supplier_role U \<and>
      su_balances U k (owner (BookingDetails (buk w) k)) < max_uint256
      \<longrightarrow> (\<exists>w1 L1. checkout admin sid [k] w = Inr w1 \<and>
             status (BookingDetails (buk w1) k) = expired \<and>
             ledgers w1 (supplier_contract (Suppliers (buk w) sid)) = Some L1 \<and>
             sc_balances L1 k (owner (BookingDetails (buk w) k))
               = sc_balances L k (owner (BookingDetails (buk w) k)) - 1 \<and>
             (\<forall>c. c \<noteq> supplier_contract (Suppliers (buk w) sid)
                  \<longrightarrow> ledgers w1 c = ledgers w c))) \<and>
     (status (BookingDetails (buk w) k) = confirmed \<and> admin \<in> admins (buk w) \<and>
      1 \<le> sc_balances L k (owner (BookingDetails (buk w) k)) \<and>
      (\<forall>log c. ev log c \<noteq> Reverted)
      \<longrightarrow> (\<exists>w1 L1. cancelRoom ev admin sid k penalty refund charges w = Inr w1 \<and>
             status (BookingDetails (buk w1) k) = cancelled \<and>
             calls w1 = calls w @
               [CancelUSDCRefund penalty
                  (supplier_owner (Suppliers (buk w) (supplierId (BookingDetails (buk w) k)))),
                CancelUSDCRefund refund (owner (BookingDetails (buk w) k)),
                CancelUSDCRefund charges (buk_wallet (buk w))] \<and>
             ledgers w1 (supplier_contract (Suppliers (buk w) sid)) = Some L1 \<and>
             sc_balances L1 k (owner (BookingDetails (buk w) k))
               = sc_balances L k (owner (BookingDetails (buk w) k)) - 1 \<and>
             (\<forall>c. c \<noteq> supplier_contract (Suppliers (buk w) sid)
                  \<longrightarrow> ledgers w1 c = ledgers w c)))"
    by (rule supplier_argument_proceeds [OF active other ledger role own])
next
  show "sc_balances L k (owner (BookingDetails (buk w) k)) = 0
      \<longrightarrow> isl (checkout admin sid [k] w) \<and>
          transact ev (Checkout admin sid [k]) w = w \<and>
          isl (cancelRoom ev admin sid k penalty refund charges w) \<and>
          transact ev (CancelRoom admin sid k penalty refund charges) w = w"
    using ledger by (simp add: checkout_short cancelRoom_short transact_Inl)
qed

theorem supplierId_argument_unchecked_witness:
  "supplierId (BookingDetails (buk (run (take 1 demo_cross) demo_world)) 1) = 1 \<and>
   sup_status (Suppliers (buk (run (take 1 demo_cross) demo_world)) 2) \<and>
   status (BookingDetails (buk (transact env_accept (ConfirmRoom 7 2 [1] [''u''] True)
      (run (take 1 demo_cross) demo_world))) 1) = confirmed \<and>
   map_option (\<lambda>L. sc_balances L 1 7) (ledgers (transact env_accept
      (ConfirmRoom 7 2 [1] [''u''] True) (run (take 1 demo_cross) demo_world)) 102) = Some 1 \<and>
   map_option (\<lambda>L. sc_balances L 1 7) (ledgers (transact env_accept
      (ConfirmRoom 7 2 [1] [''u''] True) (run (take 1 demo_cross) demo_world)) 101) = Some 0 \<and>
   supplierId (BookingDetails (buk (run demo_cross demo_world)) 1) = 1 \<and>
   status (BookingDetails (buk (transact env_accept (Checkout 1000 2 [1])
      (run demo_cross demo_world))) 1) = expired \<and>
   status (BookingDetails (buk (transact env_accept (CancelRoom 1000 2 1 1 2 3)
      (run demo_cross demo_world))) 1) = cancelled \<and>
   calls (transact env_accept (CancelRoom 1000 2 1 1 2 3) (run demo_cross demo_world))
     = [TransferFrom 7 900 2, TransferFrom 7 902 100,
        CancelUSDCRefund 1 501, CancelUSDCRefund 2 7, CancelUSDCRefund 3 900] \<and>
   supplier_owner (Suppliers (buk (run demo_cross demo_world)) 2) = 502 \<and>
   map_option (\<lambda>L. sc_balances L 1 7)
     (ledgers (run (take 2 demo_cancel) demo_world) 102) = Some 0 \<and>
   isl (checkout 1000 2 [1] (run (take 2 demo_cancel) demo_world)) \<and>
   transact env_accept (Checkout 1000 2 [1]) (run (take 2 demo_cancel) demo_world)
     = run (take 2 demo_cancel) demo_world \<and>
   isl (cancelRoom env_accept 1000 2 1 1 2 3 (run (take 2 demo_cancel) demo_world)) \<and>
   transact env_accept (CancelRoom 1000 2 1 1 2 3) (run (take 2 demo_cancel) demo_world)
     = run (take 2 demo_cancel) demo_world"
proof -
  note B = demo_cross_booked
  note C = demo_cross_confirmed
  have b_other: "supplierId (BookingDetails (buk (run (take 1 demo_cross) demo_world)) 1) \<noteq> 2"
    using B by simp
  have b_ledger: "ledgers (run (take 1 demo_cross) demo_world) (supplier_contract
      (Suppliers (buk (run (take 1 demo_cross) demo_world)) 2)) = Some (demo_ledger 202)"
    using B by simp
  have b_role: "this (run (take 1 demo_cross) demo_world) \<in> sc_factory (demo_ledger 202)"
    using B by (simp add: demo_ledger_def)
  have b_own: "owner (BookingDetails (buk (run (take 1 demo_cross) demo_world)) 1) \<noteq> 0"
    using B by simp
  from supplierId_argument_unchecked [OF B(1) b_other b_ledger b_role b_own,
      where u = "''u''" and st = True and admin = 1000 and U = "demo_utility 102"
      and ev = env_accept and penalty = 1 and refund = 2 and charges = 3] B
  obtain w1 L1 where
    r1: "confirmRoom 7 2 [1] [''u''] True (run (take 1 demo_cross) demo_world) = Inr w1"
    and s1: "status (BookingDetails (buk w1) 1) = confirmed"
    and l1: "ledgers w1 102 = Some L1" and b1: "sc_balances L1 1 7 = 1"
    and o1: "\<forall>c. c \<noteq> 102 \<longrightarrow> ledgers w1 c = ledgers (run (take 1 demo_cross) demo_world) c"
    by (auto simp: demo_ledger_def max_uint256_def)
  have t1: "transact env_accept (ConfirmRoom 7 2 [1] [''u''] True)
      (run (take 1 demo_cross) demo_world) = w1"
    using r1 by (simp add: transact_def)
  from o1 B(7) have l1': "ledgers w1 101 = Some (demo_ledger 201)" by simp
  obtain L where L: "ledgers (run demo_cross demo_world) 102 = Some L"
    and Lf: "sc_factory L = {1001}" and Lu: "sc_utility_contract L = 202"
    and Lb: "sc_balances L 1 7 = 1"
    using C(11) by (auto simp: map_option_case split: option.splits)
  have c_other: "supplierId (BookingDetails (buk (run demo_cross demo_world)) 1) \<noteq> 2"
    using C by simp
  have c_ledger: "ledgers (run demo_cross demo_world) (supplier_contract
      (Suppliers (buk (run demo_cross demo_world)) 2)) = Some L"
    using C L by simp
  have c_role: "this (run demo_cross demo_world) \<in> sc_factory L"
    using C Lf by simp
  have c_own: "owner (BookingDetails (buk (run demo_cross demo_world)) 1) \<noteq> 0"
    using C by simp
  note T = supplierId_argument_unchecked [OF C(1) c_other c_ledger c_role c_own,
      where u = "''u''" and st = True and admin = 1000 and U = "demo_utility 102"
      and ev = env_accept and penalty = 1 and refund = 2 and charges = 3]
  from T C(3,4,5,10,12) Lu Lb
  obtain w2 where r2: "checkout 1000 2 [1] (run demo_cross demo_world) = Inr w2"
    and s2: "status (BookingDetails (buk w2) 1) = expired"
    by (auto simp: demo_utility_def max_uint256_def)
  have t2: "transact env_accept (Checkout 1000 2 [1]) (run demo_cross demo_world) = w2"
    using r2 by (simp add: transact_def)
  from T C(2,3,4,6,8,10,13) Lb
  obtain w3 where r3: "cancelRoom env_accept 1000 2 1 1 2 3 (run demo_cross demo_world) = Inr w3"
    and s3: "status (BookingDetails (buk w3) 1) = cancelled"
    and c3: "calls w3 = [TransferFrom 7 900 2, TransferFrom 7 902 100,
        CancelUSDCRefund 1 501, CancelUSDCRefund 2 7, CancelUSDCRefund 3 900]"
    by (auto simp: env_accept_def)
  have t3: "transact env_accept (CancelRoom 1000 2 1 1 2 3) (run demo_cross demo_world) = w3"
    using r3 by (simp add: transact_def)
  note D = demo_own_confirmed
  have d_other: "supplierId (BookingDetails (buk (run (take 2 demo_cancel) demo_world)) 1) \<noteq> 2"
    using D by simp
  have d_ledger: "ledgers (run (take 2 demo_cancel) demo_world) (supplier_contract
      (Suppliers (buk (run (take 2 demo_cancel) demo_world)) 2)) = Some (demo_ledger 202)"
    using D by simp
  have d_role: "this (run (take 2 demo_cancel) demo_world) \<in> sc_factory (demo_ledger 202)"
    using D by (simp add: demo_ledger_def)
  have d_own: "owner (BookingDetails (buk (run (take 2 demo_cancel) demo_world)) 1) \<noteq> 0"
    using D by simp
  from supplierId_argument_unchecked [OF D(1) d_other d_ledger d_role d_own,
      where u = "''u''" and st = True and admin = 1000 and U = "demo_utility 102"
      and ev = env_accept and penalty = 1 and refund = 2 and charges = 3] D
  have r4: "isl (checkout 1000 2 [1] (run (take 2 demo_cancel) demo_world)) \<and>
   transact env_accept (Checkout 1000 2 [1]) (run (take 2 demo_cancel) demo_world)
     = run (take 2 demo_cancel) demo_world \<and>
   isl (cancelRoom env_accept 1000 2 1 1 2 3 (run (take 2 demo_cancel) demo_world)) \<and>
   transact env_accept (CancelRoom 1000 2 1 1 2 3) (run (take 2 demo_cancel) demo_world)
     = run (take 2 demo_cancel) demo_world"
    by (simp add: demo_ledger_def)
  have r5: "map_option (\<lambda>L. sc_balances L 1 7)
     (ledgers (run (take 2 demo_cancel) demo_world) 102) = Some 0"
    using D by (simp add: demo_ledger_def)
  have r123: "supplierId (BookingDetails (buk (run (take 1 demo_cross) demo_world)) 1) = 1 \<and>
   sup_status (Suppliers (buk (run (take 1 demo_cross) demo_world)) 2) \<and>
   status (BookingDetails (buk w1) 1) = confirmed \<and>
   map_option (\<lambda>L. sc_balances L 1 7) (ledgers w1 102) = Some 1 \<and>
   map_option (\<lambda>L. sc_balances L 1 7) (ledgers w1 101) = Some 0 \<and>
   supplierId (BookingDetails (buk (run demo_cross demo_world)) 1) = 1 \<and>
   status (BookingDetails (buk w2) 1) = expired \<and>
   status (BookingDetails (buk w3) 1) = cancelled \<and>
   calls w3 = [TransferFrom 7 900 2, TransferFrom 7 902 100,
        CancelUSDCRefund 1 501, CancelUSDCRefund 2 7, CancelUSDCRefund 3 900] \<and>
   supplier_owner (Suppliers (buk (run demo_cross demo_world)) 2) = 502"
    using B(1,2) C(2,7) s1 l1 b1 l1' s2 s3 c3 by (simp add: demo_ledger_def)
  from r123 r5 r4 show ?thesis unfolding t1 t2 t3 by blast
qed

end
